theory Spec2Isabelle
  imports Complex_Main
begin

section \<open>Scalars: the values of a C++ \<^verbatim>\<open>double\<close>\<close>

text \<open>
  A \<^verbatim>\<open>double\<close> is a binary64 value of IEEE 754: a finite number or plus infinity, minus
  infinity, not-a-number. A finite value is given by the real number it denotes; the
  two zeros are identified (a zero divisor counts as \<open>+0\<close>).
\<close>

datatype double = Fin real | PInf | NInf | NaN

text \<open>
  Every arithmetic operation returns the exact result rounded to the nearest binary64
  value, ties to even. The unit in the last place of \<open>x\<close> is \<open>2\<^sup>e\<close> with
  \<open>e = max (\<lfloor>log\<^sub>2 |x|\<rfloor> - 52) (-1074)\<close>; \<open>x\<close> is rounded to the nearest multiple of it, which
  underflows to zero below half of \<open>2\<^sup>-\<^sup>1\<^sup>0\<^sup>7\<^sup>4\<close> and overflows to an infinity when the multiple
  reaches \<open>2\<^sup>1\<^sup>0\<^sup>2\<^sup>4\<close>.
\<close>

definition pow2 :: "int \<Rightarrow> real" where
  "pow2 e = 2 powi e"

definition round_half_even :: "real \<Rightarrow> int" where
  "round_half_even y =
     (let f = \<lfloor>y\<rfloor>; d = y - of_int f
      in if d < 1 / 2 then f else if 1 / 2 < d then f + 1 else if even f then f else f + 1)"

definition ulp_exponent :: "real \<Rightarrow> int" where
  "ulp_exponent x = max (\<lfloor>log 2 \<bar>x\<bar>\<rfloor> - 52) (- 1074)"

definition round64 :: "real \<Rightarrow> double" where
  "round64 x =
     (if x = 0 then Fin 0
      else (let e = ulp_exponent x;
                y = of_int (round_half_even (x / pow2 e)) * pow2 e
            in if pow2 1024 \<le> \<bar>y\<bar> then (if 0 < x then PInf else NInf) else Fin y))"

text \<open>
  The special values follow IEEE 754: \<open>0/0\<close>, \<open>inf - inf\<close>, \<open>0 * inf\<close> and \<open>inf/inf\<close> are NaN,
  \<open>x/0\<close> is an infinity with the sign of \<open>x\<close>, and every ordered comparison with a NaN is
  false.
\<close>

instantiation double :: "{zero,one,plus,minus,uminus,times,inverse,ord}"
begin

definition zero_double :: double where
  "zero_double = Fin 0"

definition one_double :: double where
  "one_double = Fin 1"

fun plus_double :: "double \<Rightarrow> double \<Rightarrow> double" where
  "plus_double NaN y = NaN"
| "plus_double x NaN = NaN"
| "plus_double (Fin a) (Fin b) = round64 (a + b)"
| "plus_double PInf NInf = NaN"
| "plus_double NInf PInf = NaN"
| "plus_double PInf y = PInf"
| "plus_double NInf y = NInf"
| "plus_double (Fin a) y = y"

fun uminus_double :: "double \<Rightarrow> double" where
  "uminus_double (Fin a) = Fin (- a)"
| "uminus_double PInf = NInf"
| "uminus_double NInf = PInf"
| "uminus_double NaN = NaN"

definition minus_double :: "double \<Rightarrow> double \<Rightarrow> double" where
  "minus_double x y = x + (- y)"

fun times_double :: "double \<Rightarrow> double \<Rightarrow> double" where
  "times_double NaN y = NaN"
| "times_double x NaN = NaN"
| "times_double (Fin a) (Fin b) = round64 (a * b)"
| "times_double (Fin a) PInf = (if a = 0 then NaN else if 0 < a then PInf else NInf)"
| "times_double (Fin a) NInf = (if a = 0 then NaN else if 0 < a then NInf else PInf)"
| "times_double PInf (Fin b) = (if b = 0 then NaN else if 0 < b then PInf else NInf)"
| "times_double NInf (Fin b) = (if b = 0 then NaN else if 0 < b then NInf else PInf)"
| "times_double PInf PInf = PInf"
| "times_double PInf NInf = NInf"
| "times_double NInf PInf = NInf"
| "times_double NInf NInf = PInf"

fun divide_double :: "double \<Rightarrow> double \<Rightarrow> double" where
  "divide_double NaN y = NaN"
| "divide_double x NaN = NaN"
| "divide_double (Fin a) (Fin b) =
     (if b = 0 then (if a = 0 then NaN else if 0 < a then PInf else NInf)
      else round64 (a / b))"
| "divide_double (Fin a) y = Fin 0"
| "divide_double PInf (Fin b) = (if 0 \<le> b then PInf else NInf)"
| "divide_double NInf (Fin b) = (if 0 \<le> b then NInf else PInf)"
| "divide_double x y = NaN"

definition inverse_double :: "double \<Rightarrow> double" where
  "inverse_double x = divide (Fin 1) x"

fun less_eq_double :: "double \<Rightarrow> double \<Rightarrow> bool" where
  "less_eq_double NaN y = False"
| "less_eq_double x NaN = False"
| "less_eq_double (Fin a) (Fin b) = (a \<le> b)"
| "less_eq_double NInf y = True"
| "less_eq_double x PInf = True"
| "less_eq_double x y = False"

fun less_double :: "double \<Rightarrow> double \<Rightarrow> bool" where
  "less_double NaN y = False"
| "less_double x NaN = False"
| "less_double (Fin a) (Fin b) = (a < b)"
| "less_double PInf y = False"
| "less_double x NInf = False"
| "less_double x y = True"

instance ..

end

text \<open>
  \<^verbatim>\<open>std::fabs\<close>, \<^verbatim>\<open>sqrt\<close> and \<^verbatim>\<open>acos\<close> of \<^verbatim>\<open><cmath>\<close>. The square root is correctly rounded
  (IEEE 754); \<^verbatim>\<open>acos\<close> is taken to be correctly rounded too. \<^verbatim>\<open>M_PI\<close> is the binary64
  value of the literal \<^verbatim>\<open>3.14159265358979323846\<close>, which is \<open>884279719003555 / 2\<^sup>4\<^sup>8\<close>.
\<close>

fun fabs :: "double \<Rightarrow> double" where
  "fabs (Fin a) = Fin \<bar>a\<bar>"
| "fabs PInf = PInf"
| "fabs NInf = PInf"
| "fabs NaN = NaN"

fun sqrt_double :: "double \<Rightarrow> double" where
  "sqrt_double (Fin a) = (if a < 0 then NaN else round64 (sqrt a))"
| "sqrt_double PInf = PInf"
| "sqrt_double NInf = NaN"
| "sqrt_double NaN = NaN"

fun acos :: "double \<Rightarrow> double" where
  "acos (Fin a) = (if - 1 \<le> a \<and> a \<le> 1 then round64 (arccos a) else NaN)"
| "acos x = NaN"

definition M_PI :: double where
  "M_PI = Fin (884279719003555 / 2 ^ 48)"

section \<open>Vectors and matrices of \<^verbatim>\<open>foundation/types.h\<close>\<close>

type_synonym Vec3d = "double \<times> double \<times> double"
type_synonym Vec4d = "double \<times> double \<times> double \<times> double"

text \<open>Fixed-size matrices are tuples of rows; a matrix with a dynamic number of rows
  is the list of its rows.\<close>

type_synonym Mat3d = "Vec3d \<times> Vec3d \<times> Vec3d"
type_synonym Mat34d = "Vec4d \<times> Vec4d \<times> Vec4d"
type_synonym Mat4d = "Vec4d \<times> Vec4d \<times> Vec4d \<times> Vec4d"
type_synonym MatX3d = "Vec3d list"
type_synonym MatX4d = "Vec4d list"

fun dot :: "Vec3d \<Rightarrow> Vec3d \<Rightarrow> double" where
  "dot (u0, u1, u2) (v0, v1, v2) = u0 * v0 + u1 * v1 + u2 * v2"

fun dot4 :: "Vec4d \<Rightarrow> Vec4d \<Rightarrow> double" where
  "dot4 (u0, u1, u2, u3) (v0, v1, v2, v3) = u0 * v0 + u1 * v1 + u2 * v2 + u3 * v3"

fun sub3 :: "Vec3d \<Rightarrow> Vec3d \<Rightarrow> Vec3d" where
  "sub3 (u0, u1, u2) (v0, v1, v2) = (u0 - v0, u1 - v1, u2 - v2)"

fun scale4 :: "double \<Rightarrow> Vec4d \<Rightarrow> Vec4d" where
  "scale4 s (v0, v1, v2, v3) = (s * v0, s * v1, s * v2, s * v3)"

fun sub4 :: "Vec4d \<Rightarrow> Vec4d \<Rightarrow> Vec4d" where
  "sub4 (u0, u1, u2, u3) (v0, v1, v2, v3) = (u0 - v0, u1 - v1, u2 - v2, u3 - v3)"

text \<open>\<^verbatim>\<open>X /= s\<close>: every coefficient is divided by a copy of the scalar.\<close>

fun div4 :: "Vec4d \<Rightarrow> double \<Rightarrow> Vec4d" where
  "div4 (x0, x1, x2, x3) s = (x0 / s, x1 / s, x2 / s, x3 / s)"

fun coeff3 :: "Vec4d \<Rightarrow> double" where
  "coeff3 (x0, x1, x2, x3) = x3"

fun head3 :: "Vec4d \<Rightarrow> Vec3d" where
  "head3 (x0, x1, x2, x3) = (x0, x1, x2)"

text \<open>\<^verbatim>\<open>M * v\<close> for a 3x3 and for a 3x4 matrix.\<close>

fun mat3_mul :: "Mat3d \<Rightarrow> Vec3d \<Rightarrow> Vec3d" where
  "mat3_mul (r0, r1, r2) v = (dot r0 v, dot r1 v, dot r2 v)"

fun mat34_mul :: "Mat34d \<Rightarrow> Vec4d \<Rightarrow> Vec3d" where
  "mat34_mul (r0, r1, r2) X = (dot4 r0 X, dot4 r1 X, dot4 r2 X)"

text \<open>\<^verbatim>\<open>Rt.block<3, 3>(0, 0).transpose() * b\<close>: the transposed rotation block of a
  pose matrix applied to a bearing.\<close>

fun block33_transpose_mul :: "Mat34d \<Rightarrow> Vec3d \<Rightarrow> Vec3d" where
  "block33_transpose_mul ((r00, r01, r02, r03), (r10, r11, r12, r13), (r20, r21, r22, r23))
       (b0, b1, b2) =
     (r00 * b0 + r10 * b1 + r20 * b2,
      r01 * b0 + r11 * b1 + r21 * b2,
      r02 * b0 + r12 * b1 + r22 * b2)"

text \<open>
  \<^verbatim>\<open>Vec3d()\<close>, \<^verbatim>\<open>MatXd A(n, 4)\<close> and \<^verbatim>\<open>MatXd w(n, 3)\<close> allocate without initialising.
  A freshly allocated dynamic matrix is modelled with NaN coefficients; an uninitialised
  \<^verbatim>\<open>Vec3d()\<close> returned beside a flag is \<open>None\<close>, so that a triangulation result
  \<^verbatim>\<open>std::pair<bool, Vec3d>\<close> is a flag and an optional point.
\<close>

definition uninitialized3 :: Vec3d where
  "uninitialized3 = (NaN, NaN, NaN)"

definition uninitialized4 :: Vec4d where
  "uninitialized4 = (NaN, NaN, NaN, NaN)"

type_synonym TriangulationResult = "bool \<times> Vec3d option"

text \<open>
  Neither \<^verbatim>\<open>row(i)\<close> and \<^verbatim>\<open>operator()(i, j)\<close> of a dynamic matrix nor
  \<^verbatim>\<open>std::vector::operator[]\<close> checks its index in a release build, and a failed
  \<^verbatim>\<open>assert\<close> aborts. None of them is a C++ exception; each is an outcome of its own here.
\<close>

datatype fault = Eigen_index_out_of_range | Vector_index_out_of_range | Assertion_failed

section \<open>\<^verbatim>\<open>geometry/src/triangulation.cc\<close>\<close>

subsection \<open>AngleBetweenVectors\<close>

text \<open>The local variable \<^verbatim>\<open>c\<close> of \<^verbatim>\<open>AngleBetweenVectors\<close>.\<close>

definition AngleBetweenVectors_c :: "Vec3d \<Rightarrow> Vec3d \<Rightarrow> double" where
  "AngleBetweenVectors_c u v = dot u v / sqrt_double (dot u u * dot v v)"

definition AngleBetweenVectors :: "Vec3d \<Rightarrow> Vec3d \<Rightarrow> double" where
  "AngleBetweenVectors u v =
     (let c = AngleBetweenVectors_c u v
      in if fabs c \<ge> 1 then 0 else acos c)"

subsection \<open>TriangulateBearingsDLTSolve\<close>

text \<open>The loop of \<^verbatim>\<open>TriangulateBearingsDLTSolve\<close> that fills the rows of \<^verbatim>\<open>A\<close>.\<close>

fun DLTSolve_row0 :: "Vec3d \<Rightarrow> Mat34d \<Rightarrow> Vec4d" where
  "DLTSolve_row0 (b0, b1, b2) (r0, r1, r2) = sub4 (scale4 b0 r2) (scale4 b2 r0)"

fun DLTSolve_row1 :: "Vec3d \<Rightarrow> Mat34d \<Rightarrow> Vec4d" where
  "DLTSolve_row1 (b0, b1, b2) (r0, r1, r2) = sub4 (scale4 b1 r2) (scale4 b2 r1)"

function DLTSolve_fill :: "MatX3d \<Rightarrow> Mat34d list \<Rightarrow> nat \<Rightarrow> MatX4d \<Rightarrow> MatX4d" where
  "DLTSolve_fill bearings Rts i A =
     (if i < length bearings
      then DLTSolve_fill bearings Rts (Suc i)
             (A[2 * i := DLTSolve_row0 (bearings ! i) (Rts ! i),
                2 * i + 1 := DLTSolve_row1 (bearings ! i) (Rts ! i)])
      else A)"
  by pat_completeness auto
termination
  by (relation "measure (\<lambda>(bearings, Rts, i, A). length bearings - i)") auto

declare DLTSolve_fill.simps [simp del]

text \<open>
  \<^verbatim>\<open>Eigen::JacobiSVD<MatXd> mySVD(A, Eigen::ComputeFullV)\<close> belongs to the Eigen library:
  the function \<open>matrixV\<close> that maps \<^verbatim>\<open>A\<close> to \<^verbatim>\<open>mySVD.matrixV()\<close> (a 4x4 matrix, given
  by its rows) is a parameter. The result is its last column.
\<close>

fun column3 :: "Mat4d \<Rightarrow> Vec4d" where
  "column3 (r0, r1, r2, r3) = (coeff3 r0, coeff3 r1, coeff3 r2, coeff3 r3)"

definition TriangulateBearingsDLTSolve ::
  "(MatX4d \<Rightarrow> Mat4d) \<Rightarrow> MatX3d \<Rightarrow> Mat34d list \<Rightarrow> fault + Vec4d" where
  "TriangulateBearingsDLTSolve matrixV bearings Rts =
     (let nviews = length bearings
      in if nviews \<noteq> length Rts then Inl Assertion_failed
         else let A = DLTSolve_fill bearings Rts 0 (replicate (2 * nviews) uninitialized4)
              in Inr (column3 (matrixV A)))"

subsection \<open>TriangulateBearingsDLT\<close>

text \<open>The inner and the outer loop of the parallax test; both stop as soon as
  \<^verbatim>\<open>angle_ok\<close> is set.\<close>

function DLT_angle_inner :: "double \<Rightarrow> MatX3d \<Rightarrow> nat \<Rightarrow> nat \<Rightarrow> bool \<Rightarrow> bool" where
  "DLT_angle_inner min_angle world_bearings i j angle_ok =
     (if j < i \<and> \<not> angle_ok
      then (let angle = AngleBetweenVectors (world_bearings ! i) (world_bearings ! j)
            in DLT_angle_inner min_angle world_bearings i (Suc j)
                 (if angle \<ge> min_angle \<and> angle \<le> M_PI - min_angle then True else angle_ok))
      else angle_ok)"
  by pat_completeness auto
termination
  by (relation "measure (\<lambda>(min_angle, world_bearings, i, j, angle_ok). i - j)") auto

declare DLT_angle_inner.simps [simp del]

function DLT_angle_outer ::
  "double \<Rightarrow> Mat34d list \<Rightarrow> MatX3d \<Rightarrow> nat \<Rightarrow> MatX3d \<Rightarrow> bool \<Rightarrow> fault + bool" where
  "DLT_angle_outer min_angle Rts bearings i world_bearings angle_ok =
     (if i < length Rts \<and> \<not> angle_ok
      then (if length bearings \<le> i then Inl Eigen_index_out_of_range
            else (let world_bearings' =
                        world_bearings[i := block33_transpose_mul (Rts ! i) (bearings ! i)]
                  in DLT_angle_outer min_angle Rts bearings (Suc i) world_bearings'
                       (DLT_angle_inner min_angle world_bearings' i 0 angle_ok)))
      else Inr angle_ok)"
  by pat_completeness auto
termination
  by (relation "measure (\<lambda>(min_angle, Rts, bearings, i, world_bearings, angle_ok).
                   length Rts - i)") auto

declare DLT_angle_outer.simps [simp del]

text \<open>The reprojection loop: \<open>Inr False\<close> is one of its two early returns.\<close>

function DLT_check ::
  "double \<Rightarrow> double \<Rightarrow> Mat34d list \<Rightarrow> MatX3d \<Rightarrow> Vec4d \<Rightarrow> nat \<Rightarrow> fault + bool" where
  "DLT_check threshold min_depth Rts bearings X i =
     (if i < length Rts
      then (let projected = mat34_mul (Rts ! i) X
            in if length bearings \<le> i then Inl Eigen_index_out_of_range
               else (let measured = bearings ! i
                     in if AngleBetweenVectors projected measured > threshold then Inr False
                        else if dot projected measured < min_depth then Inr False
                        else DLT_check threshold min_depth Rts bearings X (Suc i)))
      else Inr True)"
  by pat_completeness auto
termination
  by (relation "measure (\<lambda>(threshold, min_depth, Rts, bearings, X, i). length Rts - i)") auto

declare DLT_check.simps [simp del]

definition TriangulateBearingsDLT ::
  "(MatX4d \<Rightarrow> Mat4d) \<Rightarrow> Mat34d list \<Rightarrow> MatX3d \<Rightarrow> double \<Rightarrow> double \<Rightarrow> double
     \<Rightarrow> fault + TriangulationResult" where
  "TriangulateBearingsDLT matrixV Rts bearings threshold min_angle min_depth =
     (let count = length Rts
      in case DLT_angle_outer min_angle Rts bearings 0 (replicate count uninitialized3) False of
           Inl e \<Rightarrow> Inl e
         | Inr angle_ok \<Rightarrow>
             if \<not> angle_ok then Inr (False, None)
             else (case TriangulateBearingsDLTSolve matrixV bearings Rts of
                     Inl e \<Rightarrow> Inl e
                   | Inr X0 \<Rightarrow>
                       (let X = div4 X0 (coeff3 X0)
                        in case DLT_check threshold min_depth Rts bearings X 0 of
                             Inl e \<Rightarrow> Inl e
                           | Inr False \<Rightarrow> Inr (False, None)
                           | Inr True \<Rightarrow> Inr (True, Some (head3 X)))))"

subsection \<open>TriangulateBearingsMidpoint\<close>

function Midpoint_angle_inner :: "double \<Rightarrow> MatX3d \<Rightarrow> nat \<Rightarrow> nat \<Rightarrow> bool \<Rightarrow> fault + bool" where
  "Midpoint_angle_inner min_angle bearings i j angle_ok =
     (if j < i \<and> \<not> angle_ok
      then (if length bearings \<le> i \<or> length bearings \<le> j then Inl Eigen_index_out_of_range
            else (let angle = AngleBetweenVectors (bearings ! i) (bearings ! j)
                  in Midpoint_angle_inner min_angle bearings i (Suc j)
                       (if angle \<ge> min_angle \<and> angle \<le> M_PI - min_angle then True
                        else angle_ok)))
      else Inr angle_ok)"
  by pat_completeness auto
termination
  by (relation "measure (\<lambda>(min_angle, bearings, i, j, angle_ok). i - j)") auto

declare Midpoint_angle_inner.simps [simp del]

function Midpoint_angle_outer :: "double \<Rightarrow> MatX3d \<Rightarrow> nat \<Rightarrow> nat \<Rightarrow> bool \<Rightarrow> fault + bool" where
  "Midpoint_angle_outer min_angle bearings count i angle_ok =
     (if i < count \<and> \<not> angle_ok
      then (case Midpoint_angle_inner min_angle bearings i 0 angle_ok of
              Inl e \<Rightarrow> Inl e
            | Inr angle_ok' \<Rightarrow> Midpoint_angle_outer min_angle bearings count (Suc i) angle_ok')
      else Inr angle_ok)"
  by pat_completeness auto
termination
  by (relation "measure (\<lambda>(min_angle, bearings, count, i, angle_ok). count - i)") auto

declare Midpoint_angle_outer.simps [simp del]

function Midpoint_check ::
  "double list \<Rightarrow> double \<Rightarrow> MatX3d \<Rightarrow> MatX3d \<Rightarrow> Vec3d \<Rightarrow> nat \<Rightarrow> fault + bool" where
  "Midpoint_check threshold_list min_depth centers bearings X i =
     (if i < length centers
      then (let projected = sub3 X (centers ! i)
            in if length bearings \<le> i then Inl Eigen_index_out_of_range
               else (let measured = bearings ! i
                     in if length threshold_list \<le> i then Inl Vector_index_out_of_range
                        else if AngleBetweenVectors projected measured > threshold_list ! i
                             then Inr False
                        else if dot projected measured < min_depth then Inr False
                        else Midpoint_check threshold_list min_depth centers bearings X (Suc i)))
      else Inr True)"
  by pat_completeness auto
termination
  by (relation "measure (\<lambda>(threshold_list, min_depth, centers, bearings, X, i).
                   length centers - i)") auto

declare Midpoint_check.simps [simp del]

text \<open>
  \<^verbatim>\<open>TriangulateBearingsMidpointSolve\<close> is a template of \<^verbatim>\<open>geometry/triangulation.h\<close>;
  it is the parameter \<open>solve\<close>.
\<close>

definition TriangulateBearingsMidpoint ::
  "(MatX3d \<Rightarrow> MatX3d \<Rightarrow> Vec3d) \<Rightarrow> MatX3d \<Rightarrow> MatX3d \<Rightarrow> double list \<Rightarrow> double \<Rightarrow> double
     \<Rightarrow> fault + TriangulationResult" where
  "TriangulateBearingsMidpoint solve centers bearings threshold_list min_angle min_depth =
     (let count = length centers
      in case Midpoint_angle_outer min_angle bearings count 0 False of
           Inl e \<Rightarrow> Inl e
         | Inr angle_ok \<Rightarrow>
             if \<not> angle_ok then Inr (False, None)
             else (let X = solve centers bearings
                   in case Midpoint_check threshold_list min_depth centers bearings X 0 of
                        Inl e \<Rightarrow> Inl e
                      | Inr False \<Rightarrow> Inr (False, None)
                      | Inr True \<Rightarrow> Inr (True, Some X)))"

subsection \<open>TriangulateTwoBearingsMidpointMany\<close>

text \<open>
  \<^verbatim>\<open>TriangulateTwoBearingsMidpointSolve\<close> is a template of \<^verbatim>\<open>geometry/triangulation.h\<close>
  too: the parameter \<open>solve\<close> takes the two centers \<^verbatim>\<open>os\<close> and the two bearings \<^verbatim>\<open>bs\<close>,
  each a 2x3 matrix.
\<close>

type_synonym Mat23d = "Vec3d \<times> Vec3d"

function TwoBearingsMany_loop ::
  "(Mat23d \<Rightarrow> Mat23d \<Rightarrow> TriangulationResult) \<Rightarrow> MatX3d \<Rightarrow> MatX3d \<Rightarrow> Mat3d \<Rightarrow> Mat23d \<Rightarrow> nat
     \<Rightarrow> TriangulationResult list \<Rightarrow> fault + TriangulationResult list" where
  "TwoBearingsMany_loop solve bearings1 bearings2 rotation os i triangulated =
     (if i < length bearings1
      then (if length bearings2 \<le> i then Inl Eigen_index_out_of_range
            else (let bs = (bearings1 ! i, mat3_mul rotation (bearings2 ! i))
                  in TwoBearingsMany_loop solve bearings1 bearings2 rotation os (Suc i)
                       (triangulated[i := solve os bs])))
      else Inr triangulated)"
  by pat_completeness auto
termination
  by (relation "measure (\<lambda>(solve, bearings1, bearings2, rotation, os, i, triangulated).
                   length bearings1 - i)") auto

declare TwoBearingsMany_loop.simps [simp del]

definition TriangulateTwoBearingsMidpointMany ::
  "(Mat23d \<Rightarrow> Mat23d \<Rightarrow> TriangulationResult) \<Rightarrow> MatX3d \<Rightarrow> MatX3d \<Rightarrow> Mat3d \<Rightarrow> Vec3d
     \<Rightarrow> fault + TriangulationResult list" where
  "TriangulateTwoBearingsMidpointMany solve bearings1 bearings2 rotation translation =
     (let triangulated = replicate (length bearings1) (False, None);
          os = ((0, 0, 0), translation)
      in TwoBearingsMany_loop solve bearings1 bearings2 rotation os 0 triangulated)"

subsection \<open>TriangulateBearingsMidpointSolve\<close>

text \<open>
  Modelled from the spec: the body of \<^verbatim>\<open>TriangulateBearingsMidpointSolve\<close>, a template
  of \<^verbatim>\<open>geometry/triangulation.h\<close>, a header that is missing here. It "solves a ... linear
  least-squares system (minimizing the sum of squared distances from the point to each
  ray)". For unit bearings \<open>b\<^sub>i\<close> and centers \<open>c\<^sub>i\<close> the minimiser \<open>X\<close> solves the normal
  equations \<open>(\<Sum>\<^sub>i (I - b\<^sub>i b\<^sub>i\<^sup>T)) X = \<Sum>\<^sub>i (I - b\<^sub>i b\<^sub>i\<^sup>T) c\<^sub>i\<close>; the 3x3 system is solved by
  Cramer's rule. The functions of the source take the solver as a parameter; this one
  instantiates it on concrete inputs.
\<close>

fun add3 :: "Vec3d \<Rightarrow> Vec3d \<Rightarrow> Vec3d" where
  "add3 (u0, u1, u2) (v0, v1, v2) = (u0 + v0, u1 + v1, u2 + v2)"

fun mat3_add :: "Mat3d \<Rightarrow> Mat3d \<Rightarrow> Mat3d" where
  "mat3_add (r0, r1, r2) (s0, s1, s2) = (add3 r0 s0, add3 r1 s1, add3 r2 s2)"

fun ray_projector :: "Vec3d \<Rightarrow> Mat3d" where
  "ray_projector (b0, b1, b2) =
     ((1 - b0 * b0, 0 - b0 * b1, 0 - b0 * b2),
      (0 - b1 * b0, 1 - b1 * b1, 0 - b1 * b2),
      (0 - b2 * b0, 0 - b2 * b1, 1 - b2 * b2))"

fun Midpoint_normal_equations :: "MatX3d \<Rightarrow> MatX3d \<Rightarrow> Mat3d \<times> Vec3d" where
  "Midpoint_normal_equations (c # centers) (b # bearings) =
     (case Midpoint_normal_equations centers bearings of
        (M, r) \<Rightarrow> (mat3_add (ray_projector b) M, add3 (mat3_mul (ray_projector b) c) r))"
| "Midpoint_normal_equations centers bearings = (((0, 0, 0), (0, 0, 0), (0, 0, 0)), (0, 0, 0))"

fun det3 :: "Mat3d \<Rightarrow> double" where
  "det3 ((a, b, c), (d, e, f), (g, h, i)) =
     a * (e * i - f * h) - b * (d * i - f * g) + c * (d * h - e * g)"

fun cramer3 :: "Mat3d \<Rightarrow> Vec3d \<Rightarrow> Vec3d" where
  "cramer3 ((a, b, c), (d, e, f), (g, h, i)) (x, y, z) =
     (det3 ((x, b, c), (y, e, f), (z, h, i)) / det3 ((a, b, c), (d, e, f), (g, h, i)),
      det3 ((a, x, c), (d, y, f), (g, z, i)) / det3 ((a, b, c), (d, e, f), (g, h, i)),
      det3 ((a, b, x), (d, e, y), (g, h, z)) / det3 ((a, b, c), (d, e, f), (g, h, i)))"

text \<open>Modelled from the spec: \<^verbatim>\<open>TriangulateBearingsMidpointSolve\<close> of
  \<^verbatim>\<open>geometry/triangulation.h\<close>, the least-squares point of the rays.\<close>

definition TriangulateBearingsMidpointSolve :: "MatX3d \<Rightarrow> MatX3d \<Rightarrow> Vec3d" where
  "TriangulateBearingsMidpointSolve centers bearings =
     (case Midpoint_normal_equations centers bearings of (M, r) \<Rightarrow> cramer3 M r)"

section \<open>\<^verbatim>\<open>dense/depthmap_bind.h\<close>\<close>

text \<open>
  The wrappers receive pybind11 arrays (\<^verbatim>\<open>pyarray_d\<close>, \<^verbatim>\<open>pyarray_f\<close>, \<^verbatim>\<open>pyarray_uint8\<close> of
  \<^verbatim>\<open>foundation/python_types.h\<close>): an array has a shape, one extent per axis, and its
  data. The accessor \<^verbatim>\<open>shape(axis)\<close> of pybind11 throws \<^verbatim>\<open>index_error\<close> for an axis the
  array does not have; \<^verbatim>\<open>std::invalid_argument\<close> carries its message.
\<close>

datatype py_exception = invalid_argument string | index_error

record 'a pyarray =
  shape :: "nat list"
  data :: "'a list"

definition shape_at :: "'a pyarray \<Rightarrow> nat \<Rightarrow> py_exception + nat" where
  "shape_at a axis = (if axis < length (shape a) then Inr (shape a ! axis) else Inl index_error)"

text \<open>
  The condition of each \<^verbatim>\<open>if\<close>:
  \<^verbatim>\<open>(a.shape(0) != b.shape(0)) || (a.shape(1) != b.shape(1))\<close>, evaluated from left to
  right, the second comparison only when the first is false.
\<close>

definition shapes_differ :: "'a pyarray \<Rightarrow> 'b pyarray \<Rightarrow> py_exception + bool" where
  "shapes_differ a b =
     (case shape_at a 0 of
        Inl e \<Rightarrow> Inl e
      | Inr a0 \<Rightarrow>
          (case shape_at b 0 of
             Inl e \<Rightarrow> Inl e
           | Inr b0 \<Rightarrow>
               if a0 \<noteq> b0 then Inr True
               else (case shape_at a 1 of
                       Inl e \<Rightarrow> Inl e
                     | Inr a1 \<Rightarrow>
                         (case shape_at b 1 of
                            Inl e \<Rightarrow> Inl e
                          | Inr b1 \<Rightarrow> Inr (a1 \<noteq> b1)))))"

text \<open>
  The native classes \<^verbatim>\<open>DepthmapEstimator\<close> and \<^verbatim>\<open>DepthmapPruner\<close> are declared in
  \<^verbatim>\<open>dense/depthmap.h\<close>: the state of the member \<^verbatim>\<open>de_\<close> (\<^verbatim>\<open>dp_\<close>) is a value of any
  type, and the native \<^verbatim>\<open>AddView\<close> is a parameter that maps it to the next state. A
  wrapper call returns the next state of its member, or the exception it throws. The
  conversion of the extents to \<^verbatim>\<open>int\<close> for the native call is not modelled.
\<close>

definition DepthmapEstimatorWrapper_AddView ::
  "('de \<Rightarrow> double list \<Rightarrow> double list \<Rightarrow> double list \<Rightarrow> 'u list \<Rightarrow> 'u list \<Rightarrow> nat \<Rightarrow> nat \<Rightarrow> 'de)
     \<Rightarrow> double pyarray \<Rightarrow> double pyarray \<Rightarrow> double pyarray \<Rightarrow> 'u pyarray \<Rightarrow> 'u pyarray
     \<Rightarrow> 'de \<Rightarrow> py_exception + 'de" where
  "DepthmapEstimatorWrapper_AddView AddView K R t image_raster mask_raster de =
     (case shapes_differ image_raster mask_raster of
        Inl e \<Rightarrow> Inl e
      | Inr True \<Rightarrow> Inl (invalid_argument ''image and mask must have matching shapes.'')
      | Inr False \<Rightarrow>
          (case shape_at image_raster 1 of
             Inl e \<Rightarrow> Inl e
           | Inr width \<Rightarrow>
               (case shape_at image_raster 0 of
                  Inl e \<Rightarrow> Inl e
                | Inr height \<Rightarrow>
                    Inr (AddView de (data K) (data R) (data t) (data image_raster) (data mask_raster)
                           width height))))"

definition DepthmapPrunerWrapper_AddView ::
  "('dp \<Rightarrow> double list \<Rightarrow> double list \<Rightarrow> double list \<Rightarrow> 'f list \<Rightarrow> 'f list \<Rightarrow> 'u list \<Rightarrow> 'u list
       \<Rightarrow> nat \<Rightarrow> nat \<Rightarrow> 'dp)
     \<Rightarrow> double pyarray \<Rightarrow> double pyarray \<Rightarrow> double pyarray
     \<Rightarrow> 'f pyarray \<Rightarrow> 'f pyarray \<Rightarrow> 'u pyarray \<Rightarrow> 'u pyarray
     \<Rightarrow> 'dp \<Rightarrow> py_exception + 'dp" where
  "DepthmapPrunerWrapper_AddView AddView K R t depth plane color label dp =
     (case shapes_differ depth plane of
        Inl e \<Rightarrow> Inl e
      | Inr True \<Rightarrow> Inl (invalid_argument ''depth and plane must have matching shapes.'')
      | Inr False \<Rightarrow>
     (case shapes_differ depth color of
        Inl e \<Rightarrow> Inl e
      | Inr True \<Rightarrow> Inl (invalid_argument ''depth and color must have matching shapes.'')
      | Inr False \<Rightarrow>
     (case shapes_differ depth label of
        Inl e \<Rightarrow> Inl e
      | Inr True \<Rightarrow> Inl (invalid_argument ''depth and label must have matching shapes.'')
      | Inr False \<Rightarrow>
          (case shape_at depth 1 of
             Inl e \<Rightarrow> Inl e
           | Inr width \<Rightarrow>
               (case shape_at depth 0 of
                  Inl e \<Rightarrow> Inl e
                | Inr height \<Rightarrow>
                    Inr (AddView dp (data K) (data R) (data t) (data depth) (data plane)
                           (data color) (data label) width height))))))"

section \<open>Vocabulary of the properties\<close>

text \<open>The parallax test of both triangulation functions on one pair of rays, and the
  ray of view \<open>i\<close> of \<^verbatim>\<open>TriangulateBearingsDLT\<close> in the world frame.\<close>

definition parallax_in_range :: "double \<Rightarrow> Vec3d \<Rightarrow> Vec3d \<Rightarrow> bool" where
  "parallax_in_range min_angle u v =
     (let angle = AngleBetweenVectors u v
      in angle \<ge> min_angle \<and> angle \<le> M_PI - min_angle)"

definition world_bearing :: "Mat34d list \<Rightarrow> MatX3d \<Rightarrow> nat \<Rightarrow> Vec3d" where
  "world_bearing Rts bearings i = block33_transpose_mul (Rts ! i) (bearings ! i)"

text \<open>The two tests of the reprojection loops on one view: the angle between the
  reprojected ray and the measured bearing does not exceed the threshold, and their dot
  product is not below \<^verbatim>\<open>min_depth\<close>.\<close>

definition reprojection_ok :: "double \<Rightarrow> double \<Rightarrow> Vec3d \<Rightarrow> Vec3d \<Rightarrow> bool" where
  "reprojection_ok threshold min_depth projected measured =
     (\<not> AngleBetweenVectors projected measured > threshold \<and>
      \<not> dot projected measured < min_depth)"

text \<open>Vectors of finite coordinates of magnitude at most \<open>2\<^sup>2\<^sup>5\<^sup>0\<close>, the largest of them
  of magnitude at least \<open>2\<^sup>-\<^sup>2\<^sup>5\<^sup>0\<close>.\<close>

fun well_scaled :: "Vec3d \<Rightarrow> bool" where
  "well_scaled (Fin x, Fin y, Fin z) =
     (max \<bar>x\<bar> (max \<bar>y\<bar> \<bar>z\<bar>) \<le> pow2 250 \<and> pow2 (- 250) \<le> max \<bar>x\<bar> (max \<bar>y\<bar> \<bar>z\<bar>))"
| "well_scaled u = False"

text \<open>Two arrays with at least two axes agree in their first two extents.\<close>

definition raster_shapes_agree :: "'a pyarray \<Rightarrow> 'b pyarray \<Rightarrow> bool" where
  "raster_shapes_agree a b = (shape a ! 0 = shape b ! 0 \<and> shape a ! 1 = shape b ! 1)"

section \<open>Properties\<close>

subsection \<open>Rounding\<close>

lemma round_half_even_of_int: "round_half_even (of_int n) = n"
  by (simp add: round_half_even_def)

lemma round_half_even_error: "\<bar>of_int (round_half_even y) - y\<bar> \<le> 1 / 2"
proof -
  have "of_int \<lfloor>y\<rfloor> \<le> y" "y < of_int \<lfloor>y\<rfloor> + 1" by linarith+
  then show ?thesis
    by (auto simp: round_half_even_def Let_def)
qed

lemma round_half_even_nonneg: "0 \<le> y \<Longrightarrow> 0 \<le> round_half_even y"
  by (auto simp: round_half_even_def Let_def)

lemma pow2_pos: "0 < pow2 e"
  by (simp add: pow2_def power_int_def)

lemma pow2_powr: "pow2 e = 2 powr (of_int e)"
  by (simp add: pow2_def powr_real_of_int power_int_def inverse_eq_divide power_one_over)

lemma pow2_mono: "a \<le> b \<Longrightarrow> pow2 a \<le> pow2 b"
  by (simp add: pow2_powr)

lemma pow2_less_iff: "pow2 a < pow2 b \<longleftrightarrow> a < b"
  by (simp add: pow2_powr)

lemma pow2_add: "pow2 (a + b) = pow2 a * pow2 b"
  by (simp add: pow2_def power_int_add)

lemma pow2_nat: "pow2 (int n) = 2 ^ n"
  by (simp add: pow2_def)

lemma pow2_0: "pow2 0 = 1"
  by (simp add: pow2_def)

lemma pow2_neg: "pow2 (- int n) = 1 / 2 ^ n"
  by (simp add: pow2_def power_int_def inverse_eq_divide power_one_over)

lemma floor_log2_bounds:
  assumes "x \<noteq> 0"
  shows "pow2 \<lfloor>log 2 \<bar>x\<bar>\<rfloor> \<le> \<bar>x\<bar>" and "\<bar>x\<bar> < pow2 (\<lfloor>log 2 \<bar>x\<bar>\<rfloor> + 1)"
proof -
  have pos: "0 < \<bar>x\<bar>" using assms by simp
  have "2 powr (of_int \<lfloor>log 2 \<bar>x\<bar>\<rfloor>) \<le> \<bar>x\<bar> \<and> \<bar>x\<bar> < 2 powr (of_int (\<lfloor>log 2 \<bar>x\<bar>\<rfloor> + 1))"
    using floor_log_eq_powr_iff [OF pos, of 2 "\<lfloor>log 2 \<bar>x\<bar>\<rfloor>"] by simp
  then show "pow2 \<lfloor>log 2 \<bar>x\<bar>\<rfloor> \<le> \<bar>x\<bar>" and "\<bar>x\<bar> < pow2 (\<lfloor>log 2 \<bar>x\<bar>\<rfloor> + 1)"
    by (simp_all add: pow2_powr)
qed

lemma int_abs_less_pow2: "\<bar>m\<bar> < 2 ^ n \<Longrightarrow> \<bar>of_int m :: real\<bar> < pow2 (int n)"
proof -
  assume "\<bar>m\<bar> < 2 ^ n"
  then have "of_int \<bar>m\<bar> < (of_int (2 ^ n) :: real)" by (simp only: of_int_less_iff)
  then show ?thesis by (simp add: pow2_nat)
qed

lemma int_abs_le_pow2:
  assumes "\<bar>of_int m :: real\<bar> < pow2 (int n) + 1"
  shows "\<bar>of_int m :: real\<bar> \<le> pow2 (int n)"
proof -
  have "of_int \<bar>m\<bar> < (of_int (2 ^ n + 1) :: real)" using assms by (simp add: pow2_nat)
  then have "\<bar>m\<bar> < 2 ^ n + 1" by (simp only: of_int_less_iff)
  then have "\<bar>m\<bar> \<le> 2 ^ n" by linarith
  then have "of_int \<bar>m\<bar> \<le> (of_int (2 ^ n) :: real)" by (simp only: of_int_le_iff)
  then show ?thesis by (simp add: pow2_nat)
qed

lemma int_abs_ge_pow2:
  assumes "pow2 (int n) - 1 < \<bar>of_int m :: real\<bar>"
  shows "pow2 (int n) \<le> \<bar>of_int m :: real\<bar>"
proof -
  have "(of_int (2 ^ n - 1) :: real) < of_int \<bar>m\<bar>" using assms by (simp add: pow2_nat)
  then have "2 ^ n - 1 < \<bar>m\<bar>" by (simp only: of_int_less_iff)
  then have "2 ^ n \<le> \<bar>m\<bar>" by linarith
  then have "(of_int (2 ^ n) :: real) \<le> of_int \<bar>m\<bar>" by (simp only: of_int_le_iff)
  then show ?thesis by (simp add: pow2_nat)
qed

lemma ulp_exponent_ge: "\<lfloor>log 2 \<bar>x\<bar>\<rfloor> - 52 \<le> ulp_exponent x" "- 1074 \<le> ulp_exponent x"
  by (simp_all add: ulp_exponent_def)

lemma round64_zero: "round64 0 = Fin 0"
  by (simp add: round64_def)

lemma round64_exact:
  assumes x: "x = of_int m * pow2 e" and m: "\<bar>m\<bar> < 2 ^ 53"
    and e: "- 1074 \<le> e" "e \<le> 971"
  shows "round64 x = Fin x"
proof (cases "x = 0")
  case True
  then show ?thesis by (simp add: round64_zero)
next
  case False
  define k where "k = \<lfloor>log 2 \<bar>x\<bar>\<rfloor>"
  define e' where "e' = ulp_exponent x"
  have mr: "\<bar>of_int m :: real\<bar> < pow2 53"
    using int_abs_less_pow2 [OF m] by simp
  have absx: "\<bar>x\<bar> = \<bar>of_int m\<bar> * pow2 e"
    using pow2_pos [of e] by (simp add: x abs_mult)
  have "\<bar>x\<bar> < pow2 53 * pow2 e"
    unfolding absx using mr pow2_pos [of e] by (rule mult_strict_right_mono)
  then have up: "\<bar>x\<bar> < pow2 (53 + e)"
    by (simp only: pow2_add)
  have "pow2 k \<le> \<bar>x\<bar>" unfolding k_def by (rule floor_log2_bounds(1) [OF False])
  then have "pow2 k < pow2 (53 + e)" using up by linarith
  then have "k < 53 + e" by (simp only: pow2_less_iff)
  then have le: "e' \<le> e"
    using e by (simp add: e'_def ulp_exponent_def k_def)
  define n where "n = nat (e - e')"
  have en: "e = e' + int n" using le by (simp add: n_def)
  have pw: "pow2 e = pow2 e' * 2 ^ n"
    by (simp only: en pow2_add pow2_nat)
  have quot: "x / pow2 e' = of_int (m * 2 ^ n)"
    using pow2_pos [of e'] by (simp add: x pw)
  have y: "of_int (round_half_even (x / pow2 e')) * pow2 e' = x"
    unfolding quot round_half_even_of_int by (simp add: x pw)
  have "pow2 e \<le> pow2 971" using e by (intro pow2_mono)
  then have "\<bar>of_int m\<bar> * pow2 e < pow2 53 * pow2 971"
    using mr pow2_pos [of e]
    by (intro mult_less_le_imp_less) simp_all
  also have "pow2 53 * pow2 971 = pow2 1024"
    by (simp add: pow2_add [symmetric])
  finally have fin: "\<not> pow2 1024 \<le> \<bar>x\<bar>"
    unfolding absx by simp
  show ?thesis
    using False fin by (simp add: round64_def Let_def e'_def [symmetric] y)
qed

lemma round64_overflow:
  assumes "pow2 1024 \<le> \<bar>x\<bar>"
  shows "round64 x = (if 0 < x then PInf else NInf)"
proof -
  have nz: "x \<noteq> 0" using assms pow2_pos [of 1024] by auto
  define k where "k = \<lfloor>log 2 \<bar>x\<bar>\<rfloor>"
  define e where "e = ulp_exponent x"
  have lo: "pow2 k \<le> \<bar>x\<bar>" and hi: "\<bar>x\<bar> < pow2 (k + 1)"
    unfolding k_def by (rule floor_log2_bounds [OF nz])+
  have "pow2 1024 < pow2 (k + 1)" using assms hi by linarith
  then have k: "1024 \<le> k" by (simp add: pow2_less_iff)
  then have e: "e = k - 52" by (simp add: e_def ulp_exponent_def k_def)
  have "pow2 k = pow2 e * pow2 52"
    by (simp add: e pow2_add [symmetric])
  then have q: "pow2 52 \<le> \<bar>x\<bar> / pow2 e"
    using lo pow2_pos [of e] by (simp add: pos_le_divide_eq mult.commute)
  define m where "m = round_half_even (x / pow2 e)"
  have "\<bar>of_int m - x / pow2 e\<bar> \<le> 1 / 2"
    unfolding m_def by (rule round_half_even_error)
  moreover have "\<bar>x / pow2 e\<bar> = \<bar>x\<bar> / pow2 e"
    using pow2_pos [of e] by simp
  ultimately have "pow2 52 - 1 < \<bar>of_int m :: real\<bar>"
    using q by linarith
  then have mr: "pow2 52 \<le> \<bar>of_int m :: real\<bar>"
    using int_abs_ge_pow2 [of 52 m] by simp
  have "pow2 972 \<le> pow2 e" using k by (intro pow2_mono) (simp add: e)
  then have "pow2 52 * pow2 972 \<le> \<bar>of_int m\<bar> * pow2 e"
    using mr pow2_pos [of 52] pow2_pos [of 972] by (intro mult_mono) simp_all
  moreover have "pow2 52 * pow2 972 = pow2 1024"
    by (simp add: pow2_add [symmetric])
  ultimately have "pow2 1024 \<le> \<bar>of_int m * pow2 e\<bar>"
    using pow2_pos [of e] by (simp add: abs_mult)
  then show ?thesis
    using nz by (simp add: round64_def Let_def e_def [symmetric] m_def [symmetric])
qed

lemma pow2_1024_large: "5 < pow2 1024"
proof -
  have "pow2 3 \<le> pow2 1024" by (rule pow2_mono) simp
  moreover have "pow2 3 = 8" using pow2_nat [of 3] by simp
  ultimately show ?thesis by simp
qed

lemma round64_error_below_4:
  assumes "0 < x" and "x < 4"
  shows "\<exists>r. round64 x = Fin r \<and> 0 \<le> r \<and> \<bar>r - x\<bar> \<le> 1 / 2 ^ 52"
proof -
  have nz: "x \<noteq> 0" using assms by simp
  define k where "k = \<lfloor>log 2 \<bar>x\<bar>\<rfloor>"
  define e where "e = ulp_exponent x"
  have lo: "pow2 k \<le> \<bar>x\<bar>"
    unfolding k_def by (rule floor_log2_bounds [OF nz])
  have "pow2 2 = 4" using pow2_nat [of 2] by simp
  then have "pow2 k < pow2 2" using lo assms by simp
  then have k: "k < 2" by (simp only: pow2_less_iff)
  then have e: "e \<le> - 51" by (simp add: e_def ulp_exponent_def k_def)
  have "pow2 e \<le> pow2 (- 51)" using e by (intro pow2_mono)
  moreover have "pow2 (- 51) = 1 / 2 ^ 51" using pow2_neg [of 51] by simp
  ultimately have pe: "pow2 e \<le> 1 / 2 ^ 51" by simp
  define m where "m = round_half_even (x / pow2 e)"
  define r where "r = of_int m * pow2 e"
  have err: "\<bar>of_int m - x / pow2 e\<bar> \<le> 1 / 2"
    unfolding m_def by (rule round_half_even_error)
  have "r - x = (of_int m - x / pow2 e) * pow2 e"
    using pow2_pos [of e] by (simp add: r_def algebra_simps)
  then have "\<bar>r - x\<bar> = \<bar>of_int m - x / pow2 e\<bar> * pow2 e"
    using pow2_pos [of e] by (simp add: abs_mult)
  also have "\<dots> \<le> (1 / 2) * (1 / 2 ^ 51)"
    using err pe pow2_pos [of e] by (intro mult_mono) simp_all
  finally have bound: "\<bar>r - x\<bar> \<le> 1 / 2 ^ 52" by simp
  have "0 \<le> x / pow2 e" using assms pow2_pos [of e] by simp
  then have "0 \<le> m" unfolding m_def by (rule round_half_even_nonneg)
  then have nonneg: "0 \<le> r" using pow2_pos [of e] by (simp add: r_def)
  have "1 / 2 ^ 52 \<le> (1::real)" by simp
  then have "\<bar>r - x\<bar> \<le> 1" using bound by linarith
  then have "\<bar>r\<bar> < 5" using assms by linarith
  then have "\<not> pow2 1024 \<le> \<bar>r\<bar>" using pow2_1024_large by linarith
  then have "round64 x = Fin r"
    using nz by (simp add: round64_def Let_def e_def [symmetric] m_def [symmetric] r_def)
  then show ?thesis using nonneg bound by blast
qed

lemma round64_below_one:
  assumes "round64 x = Fin y" and "\<bar>y\<bar> < 1"
  shows "\<bar>y\<bar> \<le> 1 - 1 / 2 ^ 53"
proof (cases "x = 0")
  case True
  then show ?thesis using assms by (simp add: round64_zero)
next
  case nz: False
  define k where "k = \<lfloor>log 2 \<bar>x\<bar>\<rfloor>"
  define e where "e = ulp_exponent x"
  define m where "m = round_half_even (x / pow2 e)"
  have y: "y = of_int m * pow2 e"
    using assms(1) nz
    by (simp add: round64_def Let_def e_def [symmetric] m_def [symmetric] split: if_splits)
  have hi: "\<bar>x\<bar> < pow2 (k + 1)"
    unfolding k_def by (rule floor_log2_bounds [OF nz])
  have "k - 52 \<le> e" unfolding k_def e_def by (rule ulp_exponent_ge)
  then have "pow2 (k + 1) \<le> pow2 (e + 53)" by (intro pow2_mono) simp
  then have "\<bar>x\<bar> < pow2 e * pow2 53" using hi by (simp add: pow2_add)
  then have "\<bar>x / pow2 e\<bar> < pow2 53"
    using pow2_pos [of e] by (simp add: pos_divide_less_eq mult.commute)
  moreover have "\<bar>of_int m - x / pow2 e\<bar> \<le> 1 / 2"
    unfolding m_def by (rule round_half_even_error)
  ultimately have "\<bar>of_int m :: real\<bar> < pow2 53 + 1" by linarith
  then have mr: "\<bar>of_int m :: real\<bar> \<le> pow2 53"
    using int_abs_le_pow2 [of m 53] by simp
  have absy: "\<bar>y\<bar> = \<bar>of_int m\<bar> * pow2 e"
    using pow2_pos [of e] by (simp add: y abs_mult)
  have p53: "pow2 53 = 2 ^ 53" using pow2_nat [of 53] by simp
  show ?thesis
  proof (cases "e \<le> - 54")
    case True
    then have "pow2 e \<le> pow2 (- 54)" by (intro pow2_mono)
    moreover have "pow2 (- 54) = 1 / 2 ^ 54" using pow2_neg [of 54] by simp
    ultimately have "pow2 e \<le> 1 / 2 ^ 54" by simp
    then have "\<bar>of_int m\<bar> * pow2 e \<le> 2 ^ 53 * (1 / 2 ^ 54)"
      using mr pow2_pos [of e] unfolding p53 by (intro mult_mono) simp_all
    then show ?thesis unfolding absy by simp
  next
    case False
    define n where "n = nat (e + 53)"
    have en: "e + 53 = int n" using False by (simp add: n_def)
    have "pow2 e * pow2 53 = pow2 (int n)" by (simp only: pow2_add [symmetric] en)
    then have pw: "pow2 e * 2 ^ 53 = 2 ^ n" by (simp only: pow2_nat p53)
    have "\<bar>y\<bar> * 2 ^ 53 = \<bar>of_int m\<bar> * (pow2 e * 2 ^ 53)" by (simp add: absy)
    also have "\<dots> = \<bar>of_int m\<bar> * 2 ^ n" by (simp only: pw)
    also have "\<dots> = of_int (\<bar>m\<bar> * 2 ^ n)" by simp
    finally have int: "\<bar>y\<bar> * 2 ^ 53 = of_int (\<bar>m\<bar> * 2 ^ n)" .
    have "\<bar>y\<bar> * 2 ^ 53 < 2 ^ 53" using assms(2) by simp
    then have "(of_int (\<bar>m\<bar> * 2 ^ n) :: real) < of_int (2 ^ 53)" using int by simp
    then have "\<bar>m\<bar> * 2 ^ n < (2::int) ^ 53" by (simp only: of_int_less_iff)
    then have "\<bar>m\<bar> * 2 ^ n \<le> (2::int) ^ 53 - 1" by linarith
    then have "(of_int (\<bar>m\<bar> * 2 ^ n) :: real) \<le> of_int (2 ^ 53 - 1)" by (simp only: of_int_le_iff)
    then have "\<bar>y\<bar> * 2 ^ 53 \<le> 2 ^ 53 - 1" using int by simp
    then have "\<bar>y\<bar> \<le> (2 ^ 53 - 1) / 2 ^ 53"
      by (simp add: pos_le_divide_eq)
    then show ?thesis by (simp add: diff_divide_distrib)
  qed
qed

lemma round64_of_int: "\<bar>n\<bar> < 2 ^ 53 \<Longrightarrow> round64 (of_int n) = Fin (of_int n)"
  using round64_exact [of "of_int n" n 0] by (simp add: pow2_0)

lemma round64_one: "round64 1 = Fin 1"
  using round64_of_int [of 1] by simp

lemma round64_neg_one: "round64 (- 1) = Fin (- 1)"
  using round64_of_int [of "- 1"] by simp

lemma round64_numeral:
  "(numeral k :: int) < 9007199254740992 \<Longrightarrow> round64 (numeral k) = Fin (numeral k)"
  using round64_of_int [of "numeral k"] by simp

lemma round64_neg_numeral:
  "(numeral k :: int) < 9007199254740992 \<Longrightarrow> round64 (- numeral k) = Fin (- numeral k)"
  using round64_of_int [of "- numeral k"] by simp

text \<open>Facts that evaluate the arithmetic on integers below \<open>2\<^sup>5\<^sup>3\<close>, where it is exact.\<close>

lemmas double_arith = zero_double_def one_double_def minus_double_def
  round64_zero round64_one round64_neg_one round64_numeral round64_neg_numeral

lemma pow2_1: "pow2 1 = 2"
  using pow2_nat [of 1] by simp

lemma pow2_Suc: "pow2 (k + 1) = 2 * pow2 k"
  by (simp add: pow2_add pow2_1)

lemma pow2_pred: "pow2 (k - 1) = pow2 k / 2"
  using pow2_Suc [of "k - 1"] by simp

lemma round64_bounds:
  assumes hi: "\<bar>x\<bar> \<le> pow2 k" and k: "- 1074 \<le> k" "k \<le> 1022"
  shows "\<exists>r. round64 x = Fin r \<and> \<bar>r\<bar> \<le> pow2 (k + 1) \<and> (0 \<le> x \<longrightarrow> 0 \<le> r) \<and>
             (pow2 (- 1022) \<le> \<bar>x\<bar> \<longrightarrow> \<bar>x\<bar> / 2 \<le> \<bar>r\<bar>)"
proof (cases "x = 0")
  case True
  have "\<not> pow2 (- 1022) \<le> 0" using pow2_pos [of "- 1022"] by simp
  then show ?thesis using True pow2_pos [of "k + 1"] by (simp add: round64_zero)
next
  case nz: False
  define f where "f = \<lfloor>log 2 \<bar>x\<bar>\<rfloor>"
  define e where "e = ulp_exponent x"
  define m where "m = round_half_even (x / pow2 e)"
  define r where "r = of_int m * pow2 e"
  have lo: "pow2 f \<le> \<bar>x\<bar>" unfolding f_def by (rule floor_log2_bounds [OF nz])
  have up: "\<bar>x\<bar> < pow2 (f + 1)" unfolding f_def by (rule floor_log2_bounds [OF nz])
  have e_def': "e = max (f - 52) (- 1074)" by (simp add: e_def ulp_exponent_def f_def)
  have pe: "pow2 e \<le> pow2 k"
  proof (cases "- 1074 \<le> f - 52")
    case True
    then have "e = f - 52" by (simp add: e_def')
    then have "pow2 e \<le> pow2 f" by (intro pow2_mono) simp
    then show ?thesis using lo hi by linarith
  next
    case False
    then have "e = - 1074" by (simp add: e_def')
    then show ?thesis using k by (intro pow2_mono) simp
  qed
  have err0: "\<bar>of_int m - x / pow2 e\<bar> \<le> 1 / 2"
    unfolding m_def by (rule round_half_even_error)
  have "r - x = (of_int m - x / pow2 e) * pow2 e"
    using pow2_pos [of e] by (simp add: r_def algebra_simps)
  then have "\<bar>r - x\<bar> = \<bar>of_int m - x / pow2 e\<bar> * pow2 e"
    using pow2_pos [of e] by (simp add: abs_mult)
  also have "\<dots> \<le> (1 / 2) * pow2 e"
    using err0 pow2_pos [of e] by (intro mult_right_mono) simp_all
  finally have err: "\<bar>r - x\<bar> \<le> pow2 e / 2" by simp
  have bound: "\<bar>r\<bar> \<le> pow2 (k + 1)"
    using err pe hi unfolding pow2_Suc by linarith
  have "pow2 (k + 1) \<le> pow2 1023" using k by (intro pow2_mono) simp
  moreover have "pow2 1023 < pow2 1024" by (simp add: pow2_less_iff)
  ultimately have "\<not> pow2 1024 \<le> \<bar>r\<bar>" using bound by linarith
  then have val: "round64 x = Fin r"
    using nz by (simp add: round64_def Let_def e_def [symmetric] m_def [symmetric] r_def)
  have nonneg: "0 \<le> r" if "0 \<le> x"
  proof -
    have "0 \<le> x / pow2 e" using that pow2_pos [of e] by simp
    then have "0 \<le> m" unfolding m_def by (rule round_half_even_nonneg)
    then show ?thesis using pow2_pos [of e] by (simp add: r_def)
  qed
  have lower: "\<bar>x\<bar> / 2 \<le> \<bar>r\<bar>" if "pow2 (- 1022) \<le> \<bar>x\<bar>"
  proof -
    have "pow2 (- 1022) < pow2 (f + 1)" using that up by linarith
    then have "- 1022 < f + 1" by (simp only: pow2_less_iff)
    then have "e = f - 52" by (simp add: e_def')
    then have "pow2 e \<le> pow2 f" by (intro pow2_mono) simp
    then have "pow2 e \<le> \<bar>x\<bar>" using lo by linarith
    then show ?thesis using err by linarith
  qed
  show ?thesis using val bound nonneg lower by blast
qed

lemma round64_finite:
  assumes "\<bar>x\<bar> \<le> pow2 k" and "- 1074 \<le> k" and "k \<le> 1022"
  shows "\<exists>r. round64 x = Fin r \<and> \<bar>r\<bar> \<le> pow2 (k + 1)"
  using round64_bounds [OF assms] by blast

lemma round64_nonneg:
  assumes "0 \<le> x" and "x \<le> pow2 k" and "- 1074 \<le> k" and "k \<le> 1022"
  shows "\<exists>r. round64 x = Fin r \<and> 0 \<le> r \<and> r \<le> pow2 (k + 1)"
proof -
  have "\<bar>x\<bar> \<le> pow2 k" using assms by simp
  from round64_bounds [OF this assms(3,4)] obtain r
    where "round64 x = Fin r" "\<bar>r\<bar> \<le> pow2 (k + 1)" "0 \<le> r" using assms(1) by blast
  then show ?thesis by auto
qed

lemma round64_lower:
  assumes "pow2 j \<le> x" and "- 1022 \<le> j" and "x \<le> pow2 k" and "- 1074 \<le> k" and "k \<le> 1022"
  shows "\<exists>r. round64 x = Fin r \<and> pow2 (j - 1) \<le> r \<and> r \<le> pow2 (k + 1)"
proof -
  have pos: "0 < x" using assms(1) pow2_pos [of j] by linarith
  have a: "\<bar>x\<bar> \<le> pow2 k" using assms pos by simp
  have "pow2 (- 1022) \<le> pow2 j" using assms(2) by (intro pow2_mono)
  then have b: "pow2 (- 1022) \<le> \<bar>x\<bar>" using assms(1) pos by linarith
  from round64_bounds [OF a assms(4,5)] obtain r
    where r: "round64 x = Fin r" "\<bar>r\<bar> \<le> pow2 (k + 1)" "0 \<le> r" "\<bar>x\<bar> / 2 \<le> \<bar>r\<bar>"
    using pos b by auto
  have "pow2 (j - 1) \<le> r" using r(3,4) assms(1) pos unfolding pow2_pred by linarith
  then show ?thesis using r by auto
qed

text \<open>The squared norm of a vector whose coordinates are at most \<open>2\<^sup>2\<^sup>5\<^sup>0\<close> in magnitude,
  the largest at least \<open>2\<^sup>-\<^sup>2\<^sup>5\<^sup>0\<close>, neither overflows nor underflows.\<close>

lemma square_bounds:
  assumes "\<bar>a\<bar> \<le> pow2 250"
  shows "\<exists>p. Fin a * Fin a = Fin p \<and> 0 \<le> p \<and> p \<le> pow2 501 \<and>
             (pow2 (- 250) \<le> \<bar>a\<bar> \<longrightarrow> pow2 (- 501) \<le> p)"
proof -
  have "\<bar>a\<bar> * \<bar>a\<bar> \<le> pow2 250 * pow2 250" using assms by (intro mult_mono) simp_all
  then have hi: "a * a \<le> pow2 500" using pow2_add [of 250 250] by simp
  show ?thesis
  proof (cases "pow2 (- 250) \<le> \<bar>a\<bar>")
    case True
    have "pow2 (- 250) * pow2 (- 250) \<le> \<bar>a\<bar> * \<bar>a\<bar>"
      using True pow2_pos [of "- 250"] by (intro mult_mono) simp_all
    then have lo: "pow2 (- 500) \<le> a * a" using pow2_add [of "- 250" "- 250"] by simp
    from round64_lower [OF lo _ hi] obtain p
      where "round64 (a * a) = Fin p" "pow2 (- 500 - 1) \<le> p" "p \<le> pow2 (500 + 1)" by auto
    moreover have "0 \<le> p" using calculation(2) pow2_pos [of "- 500 - 1"] by linarith
    ultimately show ?thesis by simp
  next
    case False
    from round64_nonneg [OF _ hi] obtain p
      where "round64 (a * a) = Fin p" "0 \<le> p" "p \<le> pow2 (500 + 1)" by auto
    then show ?thesis using False by simp
  qed
qed

lemma product_bounds:
  assumes "\<bar>a\<bar> \<le> pow2 250" and "\<bar>b\<bar> \<le> pow2 250"
  shows "\<exists>p. Fin a * Fin b = Fin p \<and> \<bar>p\<bar> \<le> pow2 501"
proof -
  have "\<bar>a\<bar> * \<bar>b\<bar> \<le> pow2 250 * pow2 250" using assms by (intro mult_mono) simp_all
  then have hi: "\<bar>a * b\<bar> \<le> pow2 500" using pow2_add [of 250 250] by (simp add: abs_mult)
  from round64_finite [OF hi] obtain p
    where "round64 (a * b) = Fin p" "\<bar>p\<bar> \<le> pow2 (500 + 1)" by auto
  then show ?thesis by simp
qed

lemma sum_bounds:
  assumes "\<bar>p\<bar> \<le> pow2 k" and "\<bar>q\<bar> \<le> pow2 k" and "- 1074 \<le> k" and "k \<le> 1021"
  shows "\<exists>s. Fin p + Fin q = Fin s \<and> \<bar>s\<bar> \<le> pow2 (k + 2)"
proof -
  have hi: "\<bar>p + q\<bar> \<le> pow2 (k + 1)" using assms(1,2) unfolding pow2_Suc by linarith
  from round64_finite [OF hi] assms(3,4) obtain s
    where "round64 (p + q) = Fin s" "\<bar>s\<bar> \<le> pow2 (k + 1 + 1)" by auto
  then show ?thesis by (simp add: add.assoc)
qed

lemma sum_nonneg_bounds:
  assumes "0 \<le> p" and "p \<le> pow2 k" and "0 \<le> q" and "q \<le> pow2 k"
    and "- 1074 \<le> k" and "k \<le> 1021"
  shows "\<exists>s. Fin p + Fin q = Fin s \<and> 0 \<le> s \<and> s \<le> pow2 (k + 2) \<and>
             (\<forall>j. - 1022 \<le> j \<and> (pow2 j \<le> p \<or> pow2 j \<le> q) \<longrightarrow> pow2 (j - 1) \<le> s)"
proof -
  have nn: "0 \<le> p + q" using assms by simp
  have hi: "p + q \<le> pow2 (k + 1)" using assms(2,4) unfolding pow2_Suc by linarith
  have kk: "- 1074 \<le> k + 1" "k + 1 \<le> 1022" using assms(5,6) by simp_all
  from round64_nonneg [OF nn hi kk] obtain s
    where s: "round64 (p + q) = Fin s" "0 \<le> s" "s \<le> pow2 (k + 1 + 1)" by auto
  have low: "pow2 (j - 1) \<le> s" if "- 1022 \<le> j" and "pow2 j \<le> p \<or> pow2 j \<le> q" for j
  proof -
    have "pow2 j \<le> p + q" using that(2) assms(1,3) by linarith
    from round64_lower [OF this that(1) hi kk] obtain s'
      where "round64 (p + q) = Fin s'" "pow2 (j - 1) \<le> s'" by auto
    then show ?thesis using s(1) by simp
  qed
  show ?thesis using s low by (simp add: add.assoc)
qed

text \<open>The angle of two perpendicular rays, \<^verbatim>\<open>acos(0)\<close>, passes the parallax test with
  \<^verbatim>\<open>min_angle = 0.1\<close>.\<close>

lemma right_angle_in_range:
  "acos (Fin 0) \<ge> Fin (1 / 10) \<and> acos (Fin 0) \<le> M_PI - Fin (1 / 10)"
proof -
  have "0 < pi / 2" "pi / 2 < 4" using pi_gt_zero pi_less_4 by simp_all
  then obtain r where r: "round64 (pi / 2) = Fin r" "\<bar>r - pi / 2\<bar> \<le> 1 / 2 ^ 52"
    using round64_error_below_4 [of "pi / 2"] by blast
  define x :: real where "x = 884279719003555 / 2 ^ 48 + - (1 / 10)"
  have x: "3 < x" "x < 4" by (simp_all add: x_def)
  then obtain q where q: "round64 x = Fin q" "\<bar>q - x\<bar> \<le> 1 / 2 ^ 52"
    using round64_error_below_4 [of x] by force
  have small: "1 / 2 ^ 52 \<le> (1 / 10 :: real)" by simp
  have "1 / 10 \<le> r" using r(2) small pi_ge_two by linarith
  moreover have "r \<le> q" using r(2) q(2) small x pi_less_4 by linarith
  ultimately show ?thesis
    using r(1) q(1) by (simp add: M_PI_def minus_double_def x_def)
qed

subsection \<open>AngleBetweenVectors\<close>

lemma divide_below_one:
  fixes p q :: double
  assumes "p / q = Fin a" and "\<bar>a\<bar> < 1"
  shows "\<bar>a\<bar> \<le> 1 - 1 / 2 ^ 53"
proof (cases p)
  case (Fin x)
  show ?thesis
  proof (cases q)
    case (Fin y)
    then have "y \<noteq> 0" using assms(1) \<open>p = Fin x\<close> by (auto split: if_splits)
    then have "round64 (x / y) = Fin a" using assms(1) \<open>p = Fin x\<close> Fin by simp
    then show ?thesis using assms(2) by (rule round64_below_one)
  qed (use assms \<open>p = Fin x\<close> in auto)
qed (use assms in \<open>cases q; auto split: if_splits\<close>)+

lemma cos_lower_bound:
  fixes x :: real
  assumes "0 \<le> x" and "x \<le> pi"
  shows "1 - x\<^sup>2 / 2 \<le> cos x"
proof -
  have h: "0 \<le> x / 2" "x / 2 \<le> pi" using assms by simp_all
  have s0: "0 \<le> sin (x / 2)" using h by (intro sin_ge_zero) simp_all
  have s1: "sin (x / 2) \<le> x / 2" using h(1) by (rule sin_x_le_x)
  have "(sin (x / 2))\<^sup>2 \<le> (x / 2)\<^sup>2" using s0 s1 by (intro power_mono)
  moreover have "cos x = 1 - 2 * (sin (x / 2))\<^sup>2"
    using cos_double_sin [of "x / 2"] by simp
  ultimately show ?thesis by (simp add: power2_eq_square)
qed

lemma arccos_gap:
  assumes "\<bar>a\<bar> \<le> 1 - 1 / 2 ^ 53"
  shows "0 < arccos a" and "arccos a \<le> pi - 1 / 2 ^ 27"
proof -
  have a: "- 1 < a" "a < 1" using assms by (simp_all add: abs_le_iff)
  show "0 < arccos a" using arccos_lt_bounded [OF a] by simp
  define d :: real where "d = 1 / 2 ^ 27"
  have d: "0 \<le> d" "d \<le> pi" using pi_ge_two by (simp_all add: d_def)
  have "1 - d\<^sup>2 / 2 \<le> cos d" using d by (rule cos_lower_bound)
  moreover have "d\<^sup>2 / 2 \<le> 1 / 2 ^ 53" by (simp add: d_def power2_eq_square)
  ultimately have "cos (pi - d) \<le> a" using assms by (simp add: abs_le_iff)
  moreover have "\<bar>cos (pi - d)\<bar> \<le> 1" by (rule abs_cos_le_one)
  moreover have "\<bar>a\<bar> \<le> 1" using a by simp
  ultimately have "arccos a \<le> arccos (cos (pi - d))"
    by (simp add: arccos_le_mono)
  also have "\<dots> = pi - d" using d by (intro arccos_cos) simp_all
  finally show "arccos a \<le> pi - 1 / 2 ^ 27" by (simp add: d_def)
qed

lemma acos_range:
  assumes "\<bar>a\<bar> \<le> 1 - 1 / 2 ^ 53"
  shows "\<exists>r. acos (Fin a) = Fin r \<and> 0 \<le> r \<and> r < pi"
proof -
  have a: "- 1 \<le> a" "a \<le> 1" using assms by (simp_all add: abs_le_iff)
  have pos: "0 < arccos a" and gap: "arccos a \<le> pi - 1 / 2 ^ 27"
    using arccos_gap [OF assms] by simp_all
  have "arccos a < 4" using gap pi_less_4 by simp
  then obtain r where r: "round64 (arccos a) = Fin r" "0 \<le> r" "\<bar>r - arccos a\<bar> \<le> 1 / 2 ^ 52"
    using round64_error_below_4 [OF pos] by blast
  have "(1 / 2 ^ 52 :: real) < 1 / 2 ^ 27" by simp
  then have "r < pi" using r(3) gap by linarith
  then show ?thesis using r(1,2) a by simp
qed

lemma AngleBetweenVectors_cases:
  "AngleBetweenVectors u v =
     (if fabs (AngleBetweenVectors_c u v) \<ge> 1 then Fin 0 else acos (AngleBetweenVectors_c u v))"
  by (simp add: AngleBetweenVectors_def zero_double_def Let_def del: acos.simps)

lemma AngleBetweenVectors_total:
  "AngleBetweenVectors u v = NaN \<and> AngleBetweenVectors_c u v = NaN
   \<or> AngleBetweenVectors_c u v \<noteq> NaN \<and> (\<exists>r. AngleBetweenVectors u v = Fin r \<and> 0 \<le> r \<and> r < pi)"
proof (cases "AngleBetweenVectors_c u v")
  case (Fin a)
  show ?thesis
  proof (cases "1 \<le> \<bar>a\<bar>")
    case True
    then show ?thesis using Fin by (simp add: AngleBetweenVectors_cases one_double_def)
  next
    case False
    then have "\<bar>a\<bar> < 1" by simp
    then have "\<bar>a\<bar> \<le> 1 - 1 / 2 ^ 53"
      using Fin divide_below_one [of "dot u v" "sqrt_double (dot u u * dot v v)" a]
      by (simp add: AngleBetweenVectors_c_def)
    then obtain r where "acos (Fin a) = Fin r" "0 \<le> r" "r < pi"
      using acos_range by blast
    then show ?thesis
      using Fin False by (simp add: AngleBetweenVectors_cases one_double_def del: acos.simps)
  qed
qed (simp_all add: AngleBetweenVectors_cases one_double_def)

lemma well_scaled_cases:
  assumes "well_scaled u"
  shows "\<exists>x y z. u = (Fin x, Fin y, Fin z) \<and>
           \<bar>x\<bar> \<le> pow2 250 \<and> \<bar>y\<bar> \<le> pow2 250 \<and> \<bar>z\<bar> \<le> pow2 250 \<and>
           (pow2 (- 250) \<le> \<bar>x\<bar> \<or> pow2 (- 250) \<le> \<bar>y\<bar> \<or> pow2 (- 250) \<le> \<bar>z\<bar>)"
  using assms by (cases u rule: well_scaled.cases) (simp_all add: le_max_iff_disj)

lemma norm_bounds:
  assumes "well_scaled u"
  shows "\<exists>t. dot u u = Fin t \<and> pow2 (- 503) \<le> t \<and> t \<le> pow2 505"
proof -
  from well_scaled_cases [OF assms] obtain x y z
    where u: "u = (Fin x, Fin y, Fin z)"
      and b: "\<bar>x\<bar> \<le> pow2 250" "\<bar>y\<bar> \<le> pow2 250" "\<bar>z\<bar> \<le> pow2 250"
      and l: "pow2 (- 250) \<le> \<bar>x\<bar> \<or> pow2 (- 250) \<le> \<bar>y\<bar> \<or> pow2 (- 250) \<le> \<bar>z\<bar>"
    by blast
  from square_bounds [OF b(1)] obtain p1
    where p1: "Fin x * Fin x = Fin p1" "0 \<le> p1" "p1 \<le> pow2 501"
      "pow2 (- 250) \<le> \<bar>x\<bar> \<longrightarrow> pow2 (- 501) \<le> p1" by blast
  from square_bounds [OF b(2)] obtain p2
    where p2: "Fin y * Fin y = Fin p2" "0 \<le> p2" "p2 \<le> pow2 501"
      "pow2 (- 250) \<le> \<bar>y\<bar> \<longrightarrow> pow2 (- 501) \<le> p2" by blast
  from square_bounds [OF b(3)] obtain p3
    where p3: "Fin z * Fin z = Fin p3" "0 \<le> p3" "p3 \<le> pow2 501"
      "pow2 (- 250) \<le> \<bar>z\<bar> \<longrightarrow> pow2 (- 501) \<le> p3" by blast
  from sum_nonneg_bounds [OF p1(2,3) p2(2,3)] obtain s
    where s: "Fin p1 + Fin p2 = Fin s" "0 \<le> s" "s \<le> pow2 (501 + 2)"
      "\<forall>j. - 1022 \<le> j \<and> (pow2 j \<le> p1 \<or> pow2 j \<le> p2) \<longrightarrow> pow2 (j - 1) \<le> s" by auto
  have s3: "s \<le> pow2 503" using s(3) by simp
  have "pow2 501 \<le> pow2 503" by (intro pow2_mono) simp
  then have p3': "p3 \<le> pow2 503" using p3(3) by linarith
  from sum_nonneg_bounds [OF s(2) s3 p3(2) p3'] obtain t
    where t: "Fin s + Fin p3 = Fin t" "0 \<le> t" "t \<le> pow2 (503 + 2)"
      "\<forall>j. - 1022 \<le> j \<and> (pow2 j \<le> s \<or> pow2 j \<le> p3) \<longrightarrow> pow2 (j - 1) \<le> t" by auto
  have val: "dot u u = Fin t" by (simp only: u dot.simps p1(1) p2(1) p3(1) s(1) t(1))
  have mono: "pow2 (- 503) \<le> pow2 (- 502)" by (intro pow2_mono) simp
  have low: "pow2 (- 503) \<le> t"
  proof (cases "pow2 (- 501) \<le> p1 \<or> pow2 (- 501) \<le> p2")
    case True
    then have "pow2 (- 502) \<le> s" using s(4) [THEN spec, of "- 501"] by simp
    then show ?thesis using t(4) [THEN spec, of "- 502"] by simp
  next
    case False
    then have "pow2 (- 501) \<le> p3" using l p1(4) p2(4) p3(4) by blast
    then have "pow2 (- 502) \<le> t" using t(4) [THEN spec, of "- 501"] by simp
    then show ?thesis using mono by simp
  qed
  show ?thesis using val low t(3) by simp
qed

lemma dot_bounds:
  assumes "well_scaled u" and "well_scaled v"
  shows "\<exists>t. dot u v = Fin t \<and> \<bar>t\<bar> \<le> pow2 505"
proof -
  from well_scaled_cases [OF assms(1)] obtain x y z
    where u: "u = (Fin x, Fin y, Fin z)"
      and b: "\<bar>x\<bar> \<le> pow2 250" "\<bar>y\<bar> \<le> pow2 250" "\<bar>z\<bar> \<le> pow2 250"
    by blast
  from well_scaled_cases [OF assms(2)] obtain x' y' z'
    where v: "v = (Fin x', Fin y', Fin z')"
      and b': "\<bar>x'\<bar> \<le> pow2 250" "\<bar>y'\<bar> \<le> pow2 250" "\<bar>z'\<bar> \<le> pow2 250"
    by blast
  from product_bounds [OF b(1) b'(1)] obtain p1
    where p1: "Fin x * Fin x' = Fin p1" "\<bar>p1\<bar> \<le> pow2 501" by blast
  from product_bounds [OF b(2) b'(2)] obtain p2
    where p2: "Fin y * Fin y' = Fin p2" "\<bar>p2\<bar> \<le> pow2 501" by blast
  from product_bounds [OF b(3) b'(3)] obtain p3
    where p3: "Fin z * Fin z' = Fin p3" "\<bar>p3\<bar> \<le> pow2 501" by blast
  from sum_bounds [OF p1(2) p2(2)] obtain s
    where s: "Fin p1 + Fin p2 = Fin s" "\<bar>s\<bar> \<le> pow2 (501 + 2)" by auto
  have s3: "\<bar>s\<bar> \<le> pow2 503" using s(2) by simp
  have "pow2 501 \<le> pow2 503" by (intro pow2_mono) simp
  then have p3': "\<bar>p3\<bar> \<le> pow2 503" using p3(2) by linarith
  from sum_bounds [OF s3 p3'] obtain t
    where t: "Fin s + Fin p3 = Fin t" "\<bar>t\<bar> \<le> pow2 (503 + 2)" by auto
  have "dot u v = Fin t" by (simp only: u v dot.simps p1(1) p2(1) p3(1) s(1) t(1))
  then show ?thesis using t(2) by simp
qed

text \<open>For such vectors the cosine is a finite number, and so is the angle.\<close>

lemma cosine_finite:
  assumes "well_scaled u" and "well_scaled v"
  shows "\<exists>c. AngleBetweenVectors_c u v = Fin c"
proof -
  from norm_bounds [OF assms(1)] obtain a
    where a: "dot u u = Fin a" "pow2 (- 503) \<le> a" "a \<le> pow2 505" by blast
  from norm_bounds [OF assms(2)] obtain b
    where b: "dot v v = Fin b" "pow2 (- 503) \<le> b" "b \<le> pow2 505" by blast
  from dot_bounds [OF assms] obtain t
    where t: "dot u v = Fin t" "\<bar>t\<bar> \<le> pow2 505" by blast
  have a0: "0 \<le> a" using a(2) pow2_pos [of "- 503"] by linarith
  have b0: "0 \<le> b" using b(2) pow2_pos [of "- 503"] by linarith
  have "pow2 (- 503) * pow2 (- 503) \<le> a * b"
    using a(2) b(2) pow2_pos [of "- 503"] by (intro mult_mono) simp_all
  then have lo: "pow2 (- 1006) \<le> a * b" using pow2_add [of "- 503" "- 503"] by simp
  have "a * b \<le> pow2 505 * pow2 505"
    using a(3) b(3) a0 b0 by (intro mult_mono) simp_all
  then have hi: "a * b \<le> pow2 1010" using pow2_add [of 505 505] by simp
  from round64_lower [OF lo _ hi] obtain w
    where w: "round64 (a * b) = Fin w" "pow2 (- 1006 - 1) \<le> w" "w \<le> pow2 (1010 + 1)" by auto
  have "pow2 (- 1008) \<le> pow2 (- 1006 - 1)" by (intro pow2_mono) simp
  then have wl: "pow2 (- 504) * pow2 (- 504) \<le> w"
    using w(2) pow2_add [of "- 504" "- 504"] by simp
  have "pow2 (1010 + 1) \<le> pow2 1012" by (intro pow2_mono) simp
  then have wh: "w \<le> pow2 506 * pow2 506"
    using w(3) pow2_add [of 506 506] by simp
  have w0: "0 \<le> w" using wl pow2_pos [of "- 504"] by (meson mult_nonneg_nonneg less_imp_le order_trans)
  have sl: "pow2 (- 504) \<le> sqrt w"
    using wl by (intro real_le_rsqrt) (simp add: power2_eq_square)
  have sh: "sqrt w \<le> pow2 506"
    using wh pow2_pos [of 506] by (intro real_le_lsqrt) (simp_all add: power2_eq_square)
  from round64_lower [OF sl _ sh] obtain d
    where d: "round64 (sqrt w) = Fin d" "pow2 (- 504 - 1) \<le> d" by auto
  have dl: "pow2 (- 505) \<le> d" using d(2) by simp
  have dpos: "0 < d" using dl pow2_pos [of "- 505"] by linarith
  have den: "sqrt_double (dot u u * dot v v) = Fin d"
    using w0 by (simp add: a(1) b(1) w(1) d(1))
  have "\<bar>t\<bar> / d \<le> pow2 505 / pow2 (- 505)"
    using t(2) dl pow2_pos [of "- 505"] by (intro frac_le) simp_all
  moreover have "pow2 505 / pow2 (- 505) = pow2 1010"
    using pow2_add [of 1010 "- 505"] pow2_pos [of "- 505"] by simp
  ultimately have "\<bar>t / d\<bar> \<le> pow2 1010" using dpos by simp
  from round64_finite [OF this] obtain c where "round64 (t / d) = Fin c" by auto
  then have "AngleBetweenVectors_c u v = Fin c"
    using dpos by (simp add: AngleBetweenVectors_c_def t(1) den)
  then show ?thesis ..
qed

lemma well_scaled_angle:
  assumes "well_scaled u" and "well_scaled v"
  shows "\<exists>r. AngleBetweenVectors u v = Fin r \<and> 0 \<le> r \<and> r < pi"
  using cosine_finite [OF assms] AngleBetweenVectors_total [of u v] by auto

lemma square_overflows:
  "round64 (2 ^ 600 * 2 ^ 600) = PInf" "round64 (2 ^ 600 * - (2 ^ 600)) = NInf"
  "round64 (- (2 ^ 600) * - (2 ^ 600)) = PInf"
proof -
  have "pow2 1024 \<le> pow2 1200" by (rule pow2_mono) simp
  moreover have "pow2 1200 = 2 ^ 600 * 2 ^ 600"
    using pow2_nat [of 1200] by (simp only: power_add [symmetric]) simp
  ultimately have big: "pow2 1024 \<le> 2 ^ 600 * 2 ^ 600" by simp
  have pos: "(0::real) < 2 ^ 600 * 2 ^ 600" by simp
  show "round64 (2 ^ 600 * 2 ^ 600) = PInf"
    using round64_overflow [of "2 ^ 600 * 2 ^ 600"] big pos by (simp only: abs_of_pos if_True)
  have "pow2 1024 \<le> \<bar>2 ^ 600 * - (2 ^ 600) :: real\<bar>" using big by (simp add: abs_mult)
  then show "round64 (2 ^ 600 * - (2 ^ 600)) = NInf"
    using round64_overflow [of "2 ^ 600 * - (2 ^ 600)"] by simp
  have "- (2 ^ 600) * - (2 ^ 600) = (2 ^ 600 * 2 ^ 600 :: real)" by simp
  then show "round64 (- (2 ^ 600) * - (2 ^ 600)) = PInf"
    using \<open>round64 (2 ^ 600 * 2 ^ 600) = PInf\<close> by (simp only:)
qed

text \<open>
  Claim C9 as stated fails. The vectors \<open>(2\<^sup>6\<^sup>0\<^sup>0, 0, 0)\<close> and \<open>(-2\<^sup>6\<^sup>0\<^sup>0, 0, 0)\<close> are nonzero and
  exactly antiparallel, but their dot products overflow: the cosine is \<open>-inf / inf\<close>, a
  NaN, the guard \<^verbatim>\<open>fabs(c) >= 1.0\<close> is false for it, and \<^verbatim>\<open>acos\<close> returns NaN, which is
  neither a finite value in \<open>[0, \<pi>)\<close> nor the angle 0.
\<close>

theorem AngleBetweenVectors_overflow:
  "AngleBetweenVectors (Fin (2 ^ 600), Fin 0, Fin 0) (Fin (- (2 ^ 600)), Fin 0, Fin 0) = NaN"
proof -
  have uv: "dot (Fin (2 ^ 600), Fin 0, Fin 0) (Fin (- (2 ^ 600)), Fin 0, Fin 0) = NInf"
    unfolding dot.simps times_double.simps square_overflows by (simp add: round64_zero)
  have uu: "dot (Fin (2 ^ 600), Fin 0, Fin 0) (Fin (2 ^ 600), Fin 0, Fin 0) = PInf"
    unfolding dot.simps times_double.simps square_overflows by (simp add: round64_zero)
  have vv: "dot (Fin (- (2 ^ 600)), Fin 0, Fin 0) (Fin (- (2 ^ 600)), Fin 0, Fin 0) = PInf"
    unfolding dot.simps times_double.simps square_overflows by (simp add: round64_zero)
  have "AngleBetweenVectors_c (Fin (2 ^ 600), Fin 0, Fin 0) (Fin (- (2 ^ 600)), Fin 0, Fin 0) = NaN"
    unfolding AngleBetweenVectors_c_def uv uu vv by simp
  then show ?thesis
    by (simp add: AngleBetweenVectors_cases one_double_def)
qed

text \<open>
  Claim C9, amended. \<^verbatim>\<open>AngleBetweenVectors\<close> returns NaN exactly when the computed cosine
  \<open>c\<close> is NaN; for every other pair of vectors it returns a finite value in \<open>[0, \<pi>)\<close>.
  Whenever \<open>c\<close> has absolute value at least 1 it returns 0 and \<^verbatim>\<open>acos\<close> is not evaluated;
  otherwise it returns \<^verbatim>\<open>acos(c)\<close>. Antiparallel vectors whose computed cosine is exactly
  \<open>-1\<close> are reported as angle 0, as are aligned vectors with cosine 1. For two vectors of
  finite coordinates of magnitude at most \<open>2\<^sup>2\<^sup>5\<^sup>0\<close>, each with a coordinate of magnitude at
  least \<open>2\<^sup>-\<^sup>2\<^sup>5\<^sup>0\<close>, no dot product overflows or underflows to zero, the cosine is a number
  and the result is a finite value in \<open>[0, \<pi>)\<close>.
\<close>

theorem AngleBetweenVectors_nan_or_range:
  "(AngleBetweenVectors u v = NaN \<longleftrightarrow> AngleBetweenVectors_c u v = NaN)
   \<and> (AngleBetweenVectors_c u v \<noteq> NaN \<longrightarrow>
        (\<exists>r. AngleBetweenVectors u v = Fin r \<and> 0 \<le> r \<and> r < pi))
   \<and> (fabs (AngleBetweenVectors_c u v) \<ge> 1 \<longrightarrow> AngleBetweenVectors u v = Fin 0)
   \<and> (\<not> fabs (AngleBetweenVectors_c u v) \<ge> 1 \<longrightarrow>
        AngleBetweenVectors u v = acos (AngleBetweenVectors_c u v))
   \<and> (AngleBetweenVectors_c u v = Fin (- 1) \<or> AngleBetweenVectors_c u v = Fin 1 \<longrightarrow>
        AngleBetweenVectors u v = Fin 0)
   \<and> (well_scaled u \<and> well_scaled v \<longrightarrow>
        (\<exists>r. AngleBetweenVectors u v = Fin r \<and> 0 \<le> r \<and> r < pi))"
proof -
  have total: "AngleBetweenVectors u v = NaN \<and> AngleBetweenVectors_c u v = NaN
     \<or> AngleBetweenVectors_c u v \<noteq> NaN \<and>
       (\<exists>r. AngleBetweenVectors u v = Fin r \<and> 0 \<le> r \<and> r < pi)"
    by (rule AngleBetweenVectors_total)
  have nan: "AngleBetweenVectors u v = NaN \<longleftrightarrow> AngleBetweenVectors_c u v = NaN"
    using total by auto
  have range: "AngleBetweenVectors_c u v \<noteq> NaN \<longrightarrow>
        (\<exists>r. AngleBetweenVectors u v = Fin r \<and> 0 \<le> r \<and> r < pi)"
    using total by auto
  have guard: "fabs (AngleBetweenVectors_c u v) \<ge> 1 \<longrightarrow> AngleBetweenVectors u v = Fin 0"
    by (simp add: AngleBetweenVectors_cases)
  have other: "\<not> fabs (AngleBetweenVectors_c u v) \<ge> 1 \<longrightarrow>
        AngleBetweenVectors u v = acos (AngleBetweenVectors_c u v)"
    by (simp add: AngleBetweenVectors_cases)
  have unit: "AngleBetweenVectors_c u v = Fin (- 1) \<or> AngleBetweenVectors_c u v = Fin 1 \<longrightarrow>
        AngleBetweenVectors u v = Fin 0"
    by (auto simp: AngleBetweenVectors_cases one_double_def)
  have scaled: "well_scaled u \<and> well_scaled v \<longrightarrow>
        (\<exists>r. AngleBetweenVectors u v = Fin r \<and> 0 \<le> r \<and> r < pi)"
    using well_scaled_angle by blast
  show ?thesis using nan range guard other unit scaled by blast
qed

lemma antiparallel_example_c:
  "AngleBetweenVectors_c (Fin 1, Fin 0, Fin 0) (Fin (- 2), Fin 0, Fin 0) = Fin (- 1)"
  by (simp add: AngleBetweenVectors_c_def double_arith)

lemma aligned_example_c:
  "AngleBetweenVectors_c (Fin 1, Fin 0, Fin 0) (Fin 2, Fin 0, Fin 0) = Fin 1"
  by (simp add: AngleBetweenVectors_c_def double_arith)

lemma perpendicular_example_c:
  "AngleBetweenVectors_c (Fin 1, Fin 0, Fin 0) (Fin 0, Fin 1, Fin 0) = Fin 0"
  by (simp add: AngleBetweenVectors_c_def double_arith)

text \<open>The vector \<open>(1, 0, 0)\<close> against \<open>(-2, 0, 0)\<close>, \<open>(2, 0, 0)\<close> and \<open>(0, 1, 0)\<close>, and the
  pair \<open>(3, -4, 0)\<close>, \<open>(0, 0.25, -2)\<close>.\<close>

theorem AngleBetweenVectors_nan_or_range_witness:
  "AngleBetweenVectors (Fin 1, Fin 0, Fin 0) (Fin (- 2), Fin 0, Fin 0) = Fin 0
   \<and> AngleBetweenVectors (Fin 1, Fin 0, Fin 0) (Fin 2, Fin 0, Fin 0) = Fin 0
   \<and> AngleBetweenVectors (Fin 1, Fin 0, Fin 0) (Fin 0, Fin 1, Fin 0) = acos (Fin 0)
   \<and> (\<exists>r. AngleBetweenVectors (Fin 1, Fin 0, Fin 0) (Fin 0, Fin 1, Fin 0) = Fin r
            \<and> 0 \<le> r \<and> r < pi)
   \<and> AngleBetweenVectors (Fin 1, Fin 0, Fin 0) (Fin 0, Fin 1, Fin 0) \<noteq> NaN
   \<and> (\<exists>r. AngleBetweenVectors (Fin 3, Fin (- 4), Fin 0) (Fin 0, Fin (1 / 4), Fin (- 2)) = Fin r
            \<and> 0 \<le> r \<and> r < pi)"
proof -
  let ?u = "(Fin 1, Fin 0, Fin 0)"
  note A = AngleBetweenVectors_nan_or_range [of ?u "(Fin (- 2), Fin 0, Fin 0)"]
  note B = AngleBetweenVectors_nan_or_range [of ?u "(Fin 2, Fin 0, Fin 0)"]
  note C = AngleBetweenVectors_nan_or_range [of ?u "(Fin 0, Fin 1, Fin 0)"]
  have a: "AngleBetweenVectors ?u (Fin (- 2), Fin 0, Fin 0) = Fin 0"
    using A antiparallel_example_c by blast
  have ga: "fabs (AngleBetweenVectors_c ?u (Fin 2, Fin 0, Fin 0)) \<ge> 1"
    by (simp add: aligned_example_c one_double_def)
  have b: "AngleBetweenVectors ?u (Fin 2, Fin 0, Fin 0) = Fin 0"
    using B ga by blast
  have gc: "\<not> fabs (AngleBetweenVectors_c ?u (Fin 0, Fin 1, Fin 0)) \<ge> 1"
    by (simp add: perpendicular_example_c one_double_def)
  have "AngleBetweenVectors ?u (Fin 0, Fin 1, Fin 0) =
          acos (AngleBetweenVectors_c ?u (Fin 0, Fin 1, Fin 0))"
    using C gc by blast
  then have c: "AngleBetweenVectors ?u (Fin 0, Fin 1, Fin 0) = acos (Fin 0)"
    by (simp only: perpendicular_example_c)
  have nn: "AngleBetweenVectors_c ?u (Fin 0, Fin 1, Fin 0) \<noteq> NaN"
    by (simp add: perpendicular_example_c)
  have r: "\<exists>r. AngleBetweenVectors ?u (Fin 0, Fin 1, Fin 0) = Fin r \<and> 0 \<le> r \<and> r < pi"
    using C nn by blast
  have n: "AngleBetweenVectors ?u (Fin 0, Fin 1, Fin 0) \<noteq> NaN"
    using C nn by blast
  have one: "pow2 (- 250) \<le> 1" "4 \<le> pow2 250"
    using pow2_mono [of "- 250" 0] pow2_mono [of 2 250] pow2_nat [of 2] by (simp_all add: pow2_0)
  have ws: "well_scaled (Fin 3, Fin (- 4), Fin 0) \<and> well_scaled (Fin 0, Fin (1 / 4), Fin (- 2))"
    using one by simp
  have w: "\<exists>r. AngleBetweenVectors (Fin 3, Fin (- 4), Fin 0) (Fin 0, Fin (1 / 4), Fin (- 2)) = Fin r
            \<and> 0 \<le> r \<and> r < pi"
    using AngleBetweenVectors_nan_or_range [of "(Fin 3, Fin (- 4), Fin 0)"
        "(Fin 0, Fin (1 / 4), Fin (- 2))"] ws by blast
  show ?thesis using a b c r n w by blast
qed

subsection \<open>The parallax loops\<close>


lemma parallax_in_range_iff:
  "(min_angle \<le> AngleBetweenVectors u v \<and> AngleBetweenVectors u v \<le> M_PI - min_angle) =
     parallax_in_range min_angle u v"
  by (simp add: parallax_in_range_def Let_def)

lemma DLT_angle_inner_eq:
  "DLT_angle_inner min_angle wb i j angle_ok =
     (angle_ok \<or> (\<exists>b. j \<le> b \<and> b < i \<and> parallax_in_range min_angle (wb ! i) (wb ! b)))"
proof (induction min_angle wb i j angle_ok rule: DLT_angle_inner.induct)
  case (1 min_angle wb i j angle_ok)
  show ?case
  proof (cases "j < i \<and> \<not> angle_ok")
    case True
    have split: "(\<exists>b. j \<le> b \<and> b < i \<and> parallax_in_range min_angle (wb ! i) (wb ! b)) =
          (parallax_in_range min_angle (wb ! i) (wb ! j) \<or>
           (\<exists>b. Suc j \<le> b \<and> b < i \<and> parallax_in_range min_angle (wb ! i) (wb ! b)))"
      using True by (metis Suc_leI le_eq_less_or_eq Suc_leD order_refl)
    show ?thesis
      using True "1.IH" [OF True refl]
      by (subst DLT_angle_inner.simps) (simp add: split parallax_in_range_iff Let_def)
  next
    case False
    then show ?thesis
      by (subst DLT_angle_inner.simps) auto
  qed
qed

lemma DLT_angle_outer_eq:
  assumes "length wb = length Rts" and "length Rts \<le> length bearings"
    and "\<forall>k<i. wb ! k = world_bearing Rts bearings k"
  shows "DLT_angle_outer min_angle Rts bearings i wb angle_ok =
     Inr (angle_ok \<or> (\<exists>a. i \<le> a \<and> a < length Rts \<and>
             (\<exists>b<a. parallax_in_range min_angle (world_bearing Rts bearings a)
                       (world_bearing Rts bearings b))))"
  using assms
proof (induction min_angle Rts bearings i wb angle_ok rule: DLT_angle_outer.induct)
  case (1 min_angle Rts bearings i wb angle_ok)
  let ?W = "world_bearing Rts bearings"
  let ?P = "\<lambda>a. \<exists>b<a. parallax_in_range min_angle (?W a) (?W b)"
  show ?case
  proof (cases "i < length Rts \<and> \<not> angle_ok")
    case True
    then have i: "i < length Rts" and nok: "\<not> angle_ok" by simp_all
    have inb: "\<not> length bearings \<le> i" using i "1.prems"(2) by simp
    define wb' where "wb' = wb[i := block33_transpose_mul (Rts ! i) (bearings ! i)]"
    have len': "length wb' = length Rts" using "1.prems"(1) by (simp add: wb'_def)
    have rows': "\<forall>k<Suc i. wb' ! k = ?W k"
      using "1.prems"(1,3) i
      by (auto simp: wb'_def world_bearing_def nth_list_update less_Suc_eq)
    have inner: "DLT_angle_inner min_angle wb' i 0 angle_ok = ?P i"
      using rows' nok by (auto simp: DLT_angle_inner_eq)
    have IH: "DLT_angle_outer min_angle Rts bearings (Suc i) wb'
                (DLT_angle_inner min_angle wb' i 0 angle_ok) =
              Inr (DLT_angle_inner min_angle wb' i 0 angle_ok \<or>
                   (\<exists>a. Suc i \<le> a \<and> a < length Rts \<and> ?P a))"
      by (rule "1.IH" [OF True inb wb'_def len' "1.prems"(2) rows'])
    have split: "(\<exists>a. i \<le> a \<and> a < length Rts \<and> ?P a) =
                 (?P i \<or> (\<exists>a. Suc i \<le> a \<and> a < length Rts \<and> ?P a))"
      using i by (metis Suc_leI le_eq_less_or_eq Suc_leD order_refl)
    show ?thesis
      using True inb IH inner split nok
      by (subst DLT_angle_outer.simps) (simp add: wb'_def [symmetric] Let_def)
  next
    case False
    then show ?thesis
      by (subst DLT_angle_outer.simps) auto
  qed
qed


lemma Midpoint_angle_inner_eq:
  assumes "i < length bearings"
  shows "Midpoint_angle_inner min_angle bearings i j angle_ok =
     Inr (angle_ok \<or> (\<exists>b. j \<le> b \<and> b < i \<and>
            parallax_in_range min_angle (bearings ! i) (bearings ! b)))"
  using assms
proof (induction min_angle bearings i j angle_ok rule: Midpoint_angle_inner.induct)
  case (1 min_angle bearings i j angle_ok)
  show ?case
  proof (cases "j < i \<and> \<not> angle_ok")
    case True
    have inb: "\<not> (length bearings \<le> i \<or> length bearings \<le> j)"
      using True "1.prems" by simp
    have split: "(\<exists>b. j \<le> b \<and> b < i \<and> parallax_in_range min_angle (bearings ! i) (bearings ! b)) =
          (parallax_in_range min_angle (bearings ! i) (bearings ! j) \<or>
           (\<exists>b. Suc j \<le> b \<and> b < i \<and> parallax_in_range min_angle (bearings ! i) (bearings ! b)))"
      using True by (metis Suc_leI le_eq_less_or_eq Suc_leD order_refl)
    show ?thesis
      using True inb "1.IH" [OF True inb refl "1.prems"]
      by (subst Midpoint_angle_inner.simps) (simp add: split parallax_in_range_iff Let_def)
  next
    case False
    then show ?thesis
      by (subst Midpoint_angle_inner.simps) auto
  qed
qed

lemma Midpoint_angle_outer_eq:
  assumes "count \<le> length bearings"
  shows "Midpoint_angle_outer min_angle bearings count i angle_ok =
     Inr (angle_ok \<or> (\<exists>a. i \<le> a \<and> a < count \<and>
             (\<exists>b<a. parallax_in_range min_angle (bearings ! a) (bearings ! b))))"
  using assms
proof (induction min_angle bearings count i angle_ok rule: Midpoint_angle_outer.induct)
  case (1 min_angle bearings count i angle_ok)
  let ?P = "\<lambda>a. \<exists>b<a. parallax_in_range min_angle (bearings ! a) (bearings ! b)"
  show ?case
  proof (cases "i < count \<and> \<not> angle_ok")
    case True
    then have i: "i < length bearings" and nok: "\<not> angle_ok" using "1.prems" by simp_all
    have inner: "Midpoint_angle_inner min_angle bearings i 0 angle_ok = Inr (?P i)"
      using nok by (simp add: Midpoint_angle_inner_eq [OF i])
    have IH: "Midpoint_angle_outer min_angle bearings count (Suc i) (?P i) =
              Inr (?P i \<or> (\<exists>a. Suc i \<le> a \<and> a < count \<and> ?P a))"
      by (rule "1.IH" [OF True inner "1.prems"])
    have split: "(\<exists>a. i \<le> a \<and> a < count \<and> ?P a) =
                 (?P i \<or> (\<exists>a. Suc i \<le> a \<and> a < count \<and> ?P a))"
      using True by (metis Suc_leI le_eq_less_or_eq Suc_leD order_refl)
    show ?thesis
      using True IH inner split nok
      by (subst Midpoint_angle_outer.simps) simp
  next
    case False
    then show ?thesis
      by (subst Midpoint_angle_outer.simps) auto
  qed
qed

lemma DLT_check_eq:
  assumes "length Rts \<le> length bearings"
  shows "DLT_check threshold min_depth Rts bearings X i =
     Inr (\<forall>k. i \<le> k \<and> k < length Rts \<longrightarrow>
            reprojection_ok threshold min_depth (mat34_mul (Rts ! k) X) (bearings ! k))"
  using assms
proof (induction threshold min_depth Rts bearings X i rule: DLT_check.induct)
  case (1 threshold min_depth Rts bearings X i)
  let ?ok = "\<lambda>k. reprojection_ok threshold min_depth (mat34_mul (Rts ! k) X) (bearings ! k)"
  show ?case
  proof (cases "i < length Rts")
    case True
    have inb: "\<not> length bearings \<le> i" using True "1.prems" by simp
    have split: "(\<forall>k. i \<le> k \<and> k < length Rts \<longrightarrow> ?ok k) =
                 (?ok i \<and> (\<forall>k. Suc i \<le> k \<and> k < length Rts \<longrightarrow> ?ok k))"
      using True by (metis Suc_leI le_eq_less_or_eq Suc_leD order_refl)
    show ?thesis
    proof (cases "?ok i")
      case ok: True
      then have a: "\<not> AngleBetweenVectors (mat34_mul (Rts ! i) X) (bearings ! i) > threshold"
        and d: "\<not> dot (mat34_mul (Rts ! i) X) (bearings ! i) < min_depth"
        by (simp_all add: reprojection_ok_def)
      have "DLT_check threshold min_depth Rts bearings X (Suc i) =
              Inr (\<forall>k. Suc i \<le> k \<and> k < length Rts \<longrightarrow> ?ok k)"
        by (rule "1.IH" [OF True refl inb refl a d "1.prems"])
      then show ?thesis
        using True inb a d ok split
        by (subst DLT_check.simps) (simp add: Let_def)
    next
      case bad: False
      then show ?thesis
        using True inb split
        by (subst DLT_check.simps) (auto simp: Let_def reprojection_ok_def)
    qed
  next
    case False
    then show ?thesis
      by (subst DLT_check.simps) auto
  qed
qed


lemma Midpoint_check_eq:
  assumes "length centers \<le> length bearings"
  shows "Midpoint_check threshold_list min_depth centers bearings X i =
     (if \<exists>k. i \<le> k \<and> k < length centers \<and> k < length threshold_list \<and>
              \<not> reprojection_ok (threshold_list ! k) min_depth (sub3 X (centers ! k)) (bearings ! k)
      then Inr False
      else if i < length centers \<and> length threshold_list < length centers
      then Inl Vector_index_out_of_range
      else Inr True)"
  using assms
proof (induction threshold_list min_depth centers bearings X i rule: Midpoint_check.induct)
  case (1 threshold_list min_depth centers bearings X i)
  let ?ok = "\<lambda>k. reprojection_ok (threshold_list ! k) min_depth (sub3 X (centers ! k)) (bearings ! k)"
  let ?bad = "\<lambda>i. \<exists>k. i \<le> k \<and> k < length centers \<and> k < length threshold_list \<and> \<not> ?ok k"
  show ?case
  proof (cases "i < length centers")
    case True
    have inb: "\<not> length bearings \<le> i" using True "1.prems" by simp
    show ?thesis
    proof (cases "length threshold_list \<le> i")
      case short: True
      then have "\<not> ?bad i" by auto
      moreover have "length threshold_list < length centers" using short True by simp
      ultimately show ?thesis
        using True inb short
        by (subst Midpoint_check.simps) (simp add: Let_def)
    next
      case long: False
      have split: "?bad i = (\<not> ?ok i \<or> ?bad (Suc i))"
        using True long by (metis Suc_leI le_eq_less_or_eq Suc_leD order_refl not_le)
      show ?thesis
      proof (cases "?ok i")
        case ok: True
        then have a: "\<not> AngleBetweenVectors (sub3 X (centers ! i)) (bearings ! i) > threshold_list ! i"
          and d: "\<not> dot (sub3 X (centers ! i)) (bearings ! i) < min_depth"
          by (simp_all add: reprojection_ok_def)
        have IH: "Midpoint_check threshold_list min_depth centers bearings X (Suc i) =
           (if ?bad (Suc i) then Inr False
            else if Suc i < length centers \<and> length threshold_list < length centers
            then Inl Vector_index_out_of_range
            else Inr True)"
          by (rule "1.IH" [OF True refl inb refl long a d "1.prems"])
        have step: "Midpoint_check threshold_list min_depth centers bearings X i =
                    Midpoint_check threshold_list min_depth centers bearings X (Suc i)"
          using True inb long a d
          by (subst Midpoint_check.simps) (simp add: Let_def)
        have lt: "(Suc i < length centers \<and> length threshold_list < length centers) =
                  (i < length centers \<and> length threshold_list < length centers)"
          using long True by auto
        show ?thesis
          unfolding step IH lt using split ok by simp
      next
        case bad: False
        then have "?bad i" using True long by (metis not_le order_refl)
        moreover have "Midpoint_check threshold_list min_depth centers bearings X i = Inr False"
          using True inb long bad
          by (subst Midpoint_check.simps) (auto simp: Let_def reprojection_ok_def)
        ultimately show ?thesis by simp
      qed
    qed
  next
    case False
    then show ?thesis
      by (subst Midpoint_check.simps) auto
  qed
qed


subsection \<open>The reprojection loops\<close>

lemma Midpoint_example_solve: "TriangulateBearingsMidpointSolve
         [(Fin 0, Fin 0, Fin 0), (Fin 2, Fin 1, Fin 0)]
         [(Fin 0, Fin (- 1), Fin 0), (Fin 1, Fin 0, Fin 0)] = (Fin 0, Fin 1, Fin 0)"
  by (simp add: TriangulateBearingsMidpointSolve_def double_arith)

lemma Midpoint_example_angle:
  "AngleBetweenVectors (Fin 1, Fin 0, Fin 0) (Fin 0, Fin (- 1), Fin 0) = acos (Fin 0)"
  by (simp add: AngleBetweenVectors_def AngleBetweenVectors_c_def double_arith del: acos.simps)

lemma Midpoint_example_parallax:
  "parallax_in_range (Fin (1 / 10)) (Fin 1, Fin 0, Fin 0) (Fin 0, Fin (- 1), Fin 0)"
  using right_angle_in_range
  by (simp add: parallax_in_range_def Midpoint_example_angle Let_def del: acos.simps)

lemma Midpoint_example_angle_loop:
  "Midpoint_angle_outer (Fin (1 / 10))
       [(Fin 0, Fin (- 1), Fin 0), (Fin 1, Fin 0, Fin 0)] (Suc (Suc 0)) 0 False = Inr True"
  using Midpoint_example_parallax
  by (simp add: Midpoint_angle_outer.simps Midpoint_angle_inner.simps parallax_in_range_def
      Let_def numeral_2_eq_2)

lemma Midpoint_example_check:
  "Midpoint_check [Fin (1 / 100), Fin (1 / 100)] (Fin (- 3))
       [(Fin 0, Fin 0, Fin 0), (Fin 2, Fin 1, Fin 0)]
       [(Fin 0, Fin (- 1), Fin 0), (Fin 1, Fin 0, Fin 0)] (Fin 0, Fin 1, Fin 0) 0 = Inr True"
  by (simp add: Midpoint_check.simps AngleBetweenVectors_def AngleBetweenVectors_c_def
      double_arith numeral_2_eq_2)

text \<open>
  Claim C3 as stated fails. Two cameras at \<open>(0, 0, 0)\<close> and \<open>(2, 1, 0)\<close> look along
  \<open>(0, -1, 0)\<close> and \<open>(1, 0, 0)\<close>; the lines through them meet at \<open>(0, 1, 0)\<close>, behind both
  cameras. With \<^verbatim>\<open>min_depth = -3\<close> the call succeeds, although the dot product of the
  projected and the measured bearing of the first view is \<open>-1\<close>: the reprojected ray is
  antiparallel to the bearing, which \<^verbatim>\<open>AngleBetweenVectors\<close> reports as angle 0.
\<close>

theorem behind_cameras_accepted:
  "TriangulateBearingsMidpoint TriangulateBearingsMidpointSolve
       [(Fin 0, Fin 0, Fin 0), (Fin 2, Fin 1, Fin 0)]
       [(Fin 0, Fin (- 1), Fin 0), (Fin 1, Fin 0, Fin 0)]
       [Fin (1 / 100), Fin (1 / 100)] (Fin (1 / 10)) (Fin (- 3))
     = Inr (True, Some (Fin 0, Fin 1, Fin 0))
   \<and> dot (sub3 (Fin 0, Fin 1, Fin 0) (Fin 0, Fin 0, Fin 0)) (Fin 0, Fin (- 1), Fin 0) = Fin (- 1)
   \<and> \<not> dot (sub3 (Fin 0, Fin 1, Fin 0) (Fin 0, Fin 0, Fin 0)) (Fin 0, Fin (- 1), Fin 0) > 0"
  using Midpoint_example_angle_loop Midpoint_example_check
  by (simp add: TriangulateBearingsMidpoint_def Midpoint_example_solve double_arith)

text \<open>
  Claim C3, amended. For every input that passes the parallax test (bearings paired with
  the views, and a threshold for every view), both functions return success exactly when
  for every view the angle that \<^verbatim>\<open>AngleBetweenVectors\<close> reports between the reprojected ray
  and the measured bearing does not exceed the threshold (the single threshold, or
  \<^verbatim>\<open>threshold_list[i]\<close>) and their dot product is not below \<^verbatim>\<open>min_depth\<close>; a view that
  violates either makes the call return the failure pair. The point returned on success
  is the dehomogenised solution, or the midpoint solution.
\<close>

theorem success_iff_every_view_passes:
  "(length bearings = length Rts \<and>
      (\<exists>i<length Rts. \<exists>j<i. parallax_in_range min_angle
           (world_bearing Rts bearings i) (world_bearing Rts bearings j)) \<and>
      TriangulateBearingsDLTSolve matrixV bearings Rts = Inr X0
     \<longrightarrow> TriangulateBearingsDLT matrixV Rts bearings threshold min_angle min_depth =
          (if \<forall>i<length Rts. reprojection_ok threshold min_depth
                  (mat34_mul (Rts ! i) (div4 X0 (coeff3 X0))) (bearings ! i)
           then Inr (True, Some (head3 (div4 X0 (coeff3 X0))))
           else Inr (False, None)))
   \<and> (length centers \<le> length bearings' \<and> length centers \<le> length threshold_list \<and>
      (\<exists>i<length centers. \<exists>j<i. parallax_in_range min_angle' (bearings' ! i) (bearings' ! j))
     \<longrightarrow> TriangulateBearingsMidpoint solve centers bearings' threshold_list min_angle' min_depth' =
          (if \<forall>i<length centers. reprojection_ok (threshold_list ! i) min_depth'
                  (sub3 (solve centers bearings') (centers ! i)) (bearings' ! i)
           then Inr (True, Some (solve centers bearings'))
           else Inr (False, None)))"
proof (intro conjI impI)
  assume h: "length bearings = length Rts \<and>
      (\<exists>i<length Rts. \<exists>j<i. parallax_in_range min_angle
           (world_bearing Rts bearings i) (world_bearing Rts bearings j)) \<and>
      TriangulateBearingsDLTSolve matrixV bearings Rts = Inr X0"
  then have len: "length Rts \<le> length bearings" by simp
  have angle: "DLT_angle_outer min_angle Rts bearings 0 (replicate (length Rts) uninitialized3) False
                = Inr True"
    using h by (subst DLT_angle_outer_eq) auto
  have check: "DLT_check threshold min_depth Rts bearings (div4 X0 (coeff3 X0)) 0 =
      Inr (\<forall>i<length Rts. reprojection_ok threshold min_depth
                  (mat34_mul (Rts ! i) (div4 X0 (coeff3 X0))) (bearings ! i))"
    by (simp add: DLT_check_eq [OF len])
  show "TriangulateBearingsDLT matrixV Rts bearings threshold min_angle min_depth =
          (if \<forall>i<length Rts. reprojection_ok threshold min_depth
                  (mat34_mul (Rts ! i) (div4 X0 (coeff3 X0))) (bearings ! i)
           then Inr (True, Some (head3 (div4 X0 (coeff3 X0))))
           else Inr (False, None))"
    using h by (simp add: TriangulateBearingsDLT_def angle check Let_def bool.case_eq_if)
next
  assume h: "length centers \<le> length bearings' \<and> length centers \<le> length threshold_list \<and>
      (\<exists>i<length centers. \<exists>j<i. parallax_in_range min_angle' (bearings' ! i) (bearings' ! j))"
  then have len: "length centers \<le> length bearings'" by simp
  have angle: "Midpoint_angle_outer min_angle' bearings' (length centers) 0 False = Inr True"
    using h by (subst Midpoint_angle_outer_eq) auto
  have check: "Midpoint_check threshold_list min_depth' centers bearings' (solve centers bearings') 0 =
      Inr (\<forall>i<length centers. reprojection_ok (threshold_list ! i) min_depth'
                  (sub3 (solve centers bearings') (centers ! i)) (bearings' ! i))"
    using h by (subst Midpoint_check_eq [OF len]) auto
  show "TriangulateBearingsMidpoint solve centers bearings' threshold_list min_angle' min_depth' =
          (if \<forall>i<length centers. reprojection_ok (threshold_list ! i) min_depth'
                  (sub3 (solve centers bearings') (centers ! i)) (bearings' ! i)
           then Inr (True, Some (solve centers bearings'))
           else Inr (False, None))"
    by (simp add: TriangulateBearingsMidpoint_def angle check Let_def bool.case_eq_if)
qed

text \<open>
  Claim C10. \<^verbatim>\<open>TriangulateBearingsMidpoint\<close> never compares the length of
  \<^verbatim>\<open>threshold_list\<close> with the number of views, and its reprojection loop reads
  \<^verbatim>\<open>threshold_list[i]\<close> at every view \<open>i\<close> it reaches, in order. With a bearing for every
  view the whole call is determined as follows. Without a pair of rays in the parallax
  range it returns the failure pair and reads no threshold. Otherwise the first view that
  fails its test against \<^verbatim>\<open>threshold_list[i]\<close> or \<^verbatim>\<open>min_depth\<close>, among the views that have
  a threshold, makes it return the failure pair; if there is none and the list is shorter
  than the number of views, the loop reads \<^verbatim>\<open>threshold_list\<close> past its end; and only with
  a threshold for every view, each of them passed, does it return the point with success.
\<close>

theorem threshold_list_unchecked:
  "length centers \<le> length bearings \<longrightarrow>
     TriangulateBearingsMidpoint solve centers bearings threshold_list min_angle min_depth =
       (if \<not> (\<exists>i<length centers. \<exists>j<i.
                  parallax_in_range min_angle (bearings ! i) (bearings ! j))
        then Inr (False, None)
        else if \<exists>k<length centers. k < length threshold_list \<and>
                  \<not> reprojection_ok (threshold_list ! k) min_depth
                       (sub3 (solve centers bearings) (centers ! k)) (bearings ! k)
        then Inr (False, None)
        else if length threshold_list < length centers
        then Inl Vector_index_out_of_range
        else Inr (True, Some (solve centers bearings)))"
proof
  assume len: "length centers \<le> length bearings"
  let ?par = "\<exists>i<length centers. \<exists>j<i.
                  parallax_in_range min_angle (bearings ! i) (bearings ! j)"
  let ?ok = "\<lambda>k. reprojection_ok (threshold_list ! k) min_depth
                       (sub3 (solve centers bearings) (centers ! k)) (bearings ! k)"
  let ?bad = "\<exists>k<length centers. k < length threshold_list \<and> \<not> ?ok k"
  let ?T = "TriangulateBearingsMidpoint solve centers bearings threshold_list min_angle min_depth"
  have angle: "Midpoint_angle_outer min_angle bearings (length centers) 0 False = Inr ?par"
    by (simp add: Midpoint_angle_outer_eq [OF len])
  have pos: "0 < length centers" if ?par using that by auto
  have check: "Midpoint_check threshold_list min_depth centers bearings
        (solve centers bearings) 0 =
      (if ?bad then Inr False
       else if length threshold_list < length centers then Inl Vector_index_out_of_range
       else Inr True)" if ?par
  proof -
    have b: "(\<exists>k. 0 \<le> k \<and> k < length centers \<and> k < length threshold_list \<and> \<not> ?ok k) = ?bad"
      by blast
    show ?thesis
      unfolding Midpoint_check_eq [OF len] b by (simp only: pos [OF that] simp_thms)
  qed
  show "?T = (if \<not> ?par then Inr (False, None)
        else if ?bad then Inr (False, None)
        else if length threshold_list < length centers
        then Inl Vector_index_out_of_range
        else Inr (True, Some (solve centers bearings)))"
  proof (cases ?par)
    case True
    have T: "?T = (case Midpoint_check threshold_list min_depth centers bearings
                          (solve centers bearings) 0 of
                     Inl e \<Rightarrow> Inl e
                   | Inr False \<Rightarrow> Inr (False, None)
                   | Inr True \<Rightarrow> Inr (True, Some (solve centers bearings)))"
      using True by (simp add: TriangulateBearingsMidpoint_def angle Let_def)
    show ?thesis
    proof (cases ?bad)
      case bad: True
      show ?thesis unfolding T check [OF True] using True bad
        by (simp only: if_True if_False simp_thms sum.case bool.case)
    next
      case good: False
      show ?thesis
      proof (cases "length threshold_list < length centers")
        case short: True
        show ?thesis unfolding T check [OF True] using True good short
          by (simp only: if_True if_False simp_thms sum.case bool.case)
      next
        case long: False
        show ?thesis unfolding T check [OF True] using True good long
          by (simp only: if_True if_False simp_thms sum.case bool.case)
      qed
    qed
  next
    case False
    then show ?thesis
      by (simp add: TriangulateBearingsMidpoint_def angle Let_def)
  qed
qed

subsection \<open>Concrete scenarios\<close>

lemma ex_less_two: "(\<exists>i<Suc (Suc 0). P i) = (P 0 \<or> P (Suc 0))"
  by (auto simp: less_Suc_eq)

lemma all_less_two: "(\<forall>i<Suc (Suc 0). P i) = (P 0 \<and> P (Suc 0))"
  by (auto simp: less_Suc_eq)

lemma parallel_example_no_parallax:
  "\<not> parallax_in_range (Fin (1 / 10)) (Fin 0, Fin 0, Fin 1) (Fin 0, Fin 0, Fin 1)"
  by (simp add: parallax_in_range_def AngleBetweenVectors_def AngleBetweenVectors_c_def
      double_arith)



lemma Midpoint_example_result:
  "TriangulateBearingsMidpoint TriangulateBearingsMidpointSolve
       [(Fin 0, Fin 0, Fin 0), (Fin 2, Fin 1, Fin 0)]
       [(Fin 0, Fin (- 1), Fin 0), (Fin 1, Fin 0, Fin 0)]
       [Fin (1 / 100), Fin (1 / 100)] (Fin (1 / 10)) (Fin (- 3))
     = Inr (True, Some (Fin 0, Fin 1, Fin 0))"
  using Midpoint_example_angle_loop Midpoint_example_check
  by (simp add: TriangulateBearingsMidpoint_def Midpoint_example_solve)

lemma Midpoint_example_views:
  "reprojection_ok (Fin (1 / 100)) (Fin (- 3))
      (sub3 (Fin 0, Fin 1, Fin 0) (Fin 0, Fin 0, Fin 0)) (Fin 0, Fin (- 1), Fin 0)"
  "reprojection_ok (Fin (1 / 100)) (Fin (- 3))
      (sub3 (Fin 0, Fin 1, Fin 0) (Fin 2, Fin 1, Fin 0)) (Fin 1, Fin 0, Fin 0)"
  by (simp_all add: reprojection_ok_def AngleBetweenVectors_def AngleBetweenVectors_c_def
      double_arith)

lemma DLT_example_angle:
  "AngleBetweenVectors (Fin 1, Fin 0, Fin 0) (Fin 0, Fin 0, Fin 1) = acos (Fin 0)"
  by (simp add: AngleBetweenVectors_def AngleBetweenVectors_c_def double_arith del: acos.simps)

lemma DLT_example_parallax:
  "parallax_in_range (Fin (1 / 10)) (Fin 1, Fin 0, Fin 0) (Fin 0, Fin 0, Fin 1)"
  using right_angle_in_range
  by (simp add: parallax_in_range_def DLT_example_angle Let_def del: acos.simps)

text \<open>Two perpendicular rays that meet at \<open>(0, 0, 1)\<close> in front of both cameras, with a
  matrix \<open>V\<close> whose last column spans the null space of the system; and the scenario of
  the two cameras above.\<close>

theorem success_iff_every_view_passes_witness:
  "TriangulateBearingsDLT (\<lambda>A. ((Fin 1, Fin 0, Fin 0, Fin 0), (Fin 0, Fin 1, Fin 0, Fin 0),
                                (Fin 0, Fin 0, Fin 1, Fin 1), (Fin 0, Fin 0, Fin (- 1), Fin 1)))
       [((Fin 1, Fin 0, Fin 0, Fin 0), (Fin 0, Fin 1, Fin 0, Fin 0), (Fin 0, Fin 0, Fin 1, Fin 0)),
        ((Fin 1, Fin 0, Fin 0, Fin 1), (Fin 0, Fin 1, Fin 0, Fin 0), (Fin 0, Fin 0, Fin 1, Fin (- 1)))]
       [(Fin 0, Fin 0, Fin 1), (Fin 1, Fin 0, Fin 0)]
       (Fin (1 / 100)) (Fin (1 / 10)) (Fin 0) = Inr (True, Some (Fin 0, Fin 0, Fin 1))
   \<and> TriangulateBearingsMidpoint TriangulateBearingsMidpointSolve
       [(Fin 0, Fin 0, Fin 0), (Fin 2, Fin 1, Fin 0)]
       [(Fin 0, Fin (- 1), Fin 0), (Fin 1, Fin 0, Fin 0)]
       [Fin (1 / 100), Fin (1 / 100)] (Fin (1 / 10)) (Fin (- 3))
     = Inr (True, Some (Fin 0, Fin 1, Fin 0))"
proof -
  let ?V = "\<lambda>A::MatX4d. ((Fin 1, Fin 0, Fin 0, Fin 0), (Fin 0, Fin 1, Fin 0, Fin 0),
                                (Fin 0, Fin 0, Fin 1, Fin 1), (Fin 0, Fin 0, Fin (- 1), Fin 1))"
  let ?Rts = "[((Fin 1, Fin 0, Fin 0, Fin 0), (Fin 0, Fin 1, Fin 0, Fin 0), (Fin 0, Fin 0, Fin 1, Fin 0)),
        ((Fin 1, Fin 0, Fin 0, Fin 1), (Fin 0, Fin 1, Fin 0, Fin 0), (Fin 0, Fin 0, Fin 1, Fin (- 1)))]"
  let ?bs = "[(Fin 0, Fin 0, Fin 1), (Fin 1, Fin 0, Fin 0)]"
  let ?X0 = "(Fin 0, Fin 0, Fin 1, Fin 1)"
  let ?cs = "[(Fin 0, Fin 0, Fin 0), (Fin 2, Fin 1, Fin 0)]"
  let ?bs' = "[(Fin 0, Fin (- 1), Fin 0), (Fin 1, Fin 0, Fin 0)]"
  let ?ts = "[Fin (1 / 100), Fin (1 / 100)]"
  have wb: "world_bearing ?Rts ?bs (Suc 0) = (Fin 1, Fin 0, Fin 0)"
    "world_bearing ?Rts ?bs 0 = (Fin 0, Fin 0, Fin 1)"
    by (simp_all add: world_bearing_def double_arith)
  have par: "\<exists>i<length ?Rts. \<exists>j<i. parallax_in_range (Fin (1 / 10))
           (world_bearing ?Rts ?bs i) (world_bearing ?Rts ?bs j)"
    using DLT_example_parallax wb by (intro exI [of _ "Suc 0"] exI [of _ 0]) simp
  have solve: "TriangulateBearingsDLTSolve ?V ?bs ?Rts = Inr ?X0"
    by (simp add: TriangulateBearingsDLTSolve_def)
  have h1: "length ?bs = length ?Rts \<and>
      (\<exists>i<length ?Rts. \<exists>j<i. parallax_in_range (Fin (1 / 10))
           (world_bearing ?Rts ?bs i) (world_bearing ?Rts ?bs j)) \<and>
      TriangulateBearingsDLTSolve ?V ?bs ?Rts = Inr ?X0"
    using par solve by simp
  have views: "\<forall>i<length ?Rts. reprojection_ok (Fin (1 / 100)) (Fin 0)
                  (mat34_mul (?Rts ! i) (div4 ?X0 (coeff3 ?X0))) (?bs ! i)"
    by (simp add: all_less_two reprojection_ok_def AngleBetweenVectors_def
        AngleBetweenVectors_c_def double_arith)
  have par': "\<exists>i<length ?cs. \<exists>j<i. parallax_in_range (Fin (1 / 10)) (?bs' ! i) (?bs' ! j)"
    using Midpoint_example_parallax by (intro exI [of _ "Suc 0"] exI [of _ 0]) simp
  have h2: "length ?cs \<le> length ?bs' \<and> length ?cs \<le> length ?ts \<and>
      (\<exists>i<length ?cs. \<exists>j<i. parallax_in_range (Fin (1 / 10)) (?bs' ! i) (?bs' ! j))"
    using par' by simp
  have views': "\<forall>i<length ?cs. reprojection_ok (?ts ! i) (Fin (- 3))
                  (sub3 (TriangulateBearingsMidpointSolve ?cs ?bs') (?cs ! i)) (?bs' ! i)"
    using Midpoint_example_views by (simp add: all_less_two Midpoint_example_solve)
  note T = success_iff_every_view_passes [of ?bs ?Rts "Fin (1 / 10)" ?V ?X0 "Fin (1 / 100)" "Fin 0"
      ?cs ?bs' ?ts "Fin (1 / 10)" TriangulateBearingsMidpointSolve "Fin (- 3)"]
  have "TriangulateBearingsDLT ?V ?Rts ?bs (Fin (1 / 100)) (Fin (1 / 10)) (Fin 0) =
          Inr (True, Some (head3 (div4 ?X0 (coeff3 ?X0))))"
    using T h1 views by presburger
  moreover have "TriangulateBearingsMidpoint TriangulateBearingsMidpointSolve ?cs ?bs' ?ts
          (Fin (1 / 10)) (Fin (- 3)) = Inr (True, Some (TriangulateBearingsMidpointSolve ?cs ?bs'))"
    using T h2 views' by presburger
  ultimately show ?thesis
    by (simp add: Midpoint_example_solve double_arith)
qed

lemma crossing_example_solve: "TriangulateBearingsMidpointSolve
         [(Fin 0, Fin 0, Fin 0), (Fin (- 1), Fin 0, Fin 1)]
         [(Fin 0, Fin 0, Fin 1), (Fin 1, Fin 0, Fin 0)] = (Fin 0, Fin 0, Fin 1)"
  by (simp add: TriangulateBearingsMidpointSolve_def double_arith)

lemma crossing_example_views:
  "reprojection_ok (Fin (1 / 100)) (Fin 0)
      (sub3 (Fin 0, Fin 0, Fin 1) (Fin 0, Fin 0, Fin 0)) (Fin 0, Fin 0, Fin 1)"
  "reprojection_ok (Fin (1 / 100)) (Fin 0)
      (sub3 (Fin 0, Fin 0, Fin 1) (Fin (- 1), Fin 0, Fin 1)) (Fin 1, Fin 0, Fin 0)"
  "\<not> reprojection_ok (Fin (- 1)) (Fin 0)
      (sub3 (Fin 0, Fin 0, Fin 1) (Fin 0, Fin 0, Fin 0)) (Fin 0, Fin 0, Fin 1)"
  "\<not> reprojection_ok (Fin (- 1)) (Fin 0)
      (sub3 (Fin 0, Fin 0, Fin 1) (Fin (- 1), Fin 0, Fin 1)) (Fin 1, Fin 0, Fin 0)"
  by (simp_all add: reprojection_ok_def AngleBetweenVectors_def AngleBetweenVectors_c_def
      double_arith)

text \<open>
  Cameras at \<open>(0, 0, 0)\<close> and \<open>(-1, 0, 1)\<close> look along \<open>(0, 0, 1)\<close> and \<open>(1, 0, 0)\<close>; the
  rays meet at \<open>(0, 0, 1)\<close>, in front of both. With two thresholds of \<open>0.01\<close> the call
  succeeds; a threshold of \<open>-1\<close> for either view makes it fail; with one threshold of
  \<open>0.01\<close>, or none, it reads past the end of the list; with the single threshold \<open>-1\<close> it
  fails at the first view and never reaches the missing entry; and two parallel rays fail
  the parallax test with an empty list.
\<close>

theorem threshold_list_unchecked_witness:
  "TriangulateBearingsMidpoint TriangulateBearingsMidpointSolve
       [(Fin 0, Fin 0, Fin 0), (Fin (- 1), Fin 0, Fin 1)]
       [(Fin 0, Fin 0, Fin 1), (Fin 1, Fin 0, Fin 0)]
       [Fin (1 / 100), Fin (1 / 100)] (Fin (1 / 10)) (Fin 0)
     = Inr (True, Some (Fin 0, Fin 0, Fin 1))
   \<and> TriangulateBearingsMidpoint TriangulateBearingsMidpointSolve
       [(Fin 0, Fin 0, Fin 0), (Fin (- 1), Fin 0, Fin 1)]
       [(Fin 0, Fin 0, Fin 1), (Fin 1, Fin 0, Fin 0)]
       [Fin (1 / 100), Fin (- 1)] (Fin (1 / 10)) (Fin 0)
     = Inr (False, None)
   \<and> TriangulateBearingsMidpoint TriangulateBearingsMidpointSolve
       [(Fin 0, Fin 0, Fin 0), (Fin (- 1), Fin 0, Fin 1)]
       [(Fin 0, Fin 0, Fin 1), (Fin 1, Fin 0, Fin 0)]
       [Fin (- 1), Fin (1 / 100)] (Fin (1 / 10)) (Fin 0)
     = Inr (False, None)
   \<and> TriangulateBearingsMidpoint TriangulateBearingsMidpointSolve
       [(Fin 0, Fin 0, Fin 0), (Fin (- 1), Fin 0, Fin 1)]
       [(Fin 0, Fin 0, Fin 1), (Fin 1, Fin 0, Fin 0)]
       [Fin (1 / 100)] (Fin (1 / 10)) (Fin 0)
     = Inl Vector_index_out_of_range
   \<and> TriangulateBearingsMidpoint TriangulateBearingsMidpointSolve
       [(Fin 0, Fin 0, Fin 0), (Fin (- 1), Fin 0, Fin 1)]
       [(Fin 0, Fin 0, Fin 1), (Fin 1, Fin 0, Fin 0)]
       [] (Fin (1 / 10)) (Fin 0)
     = Inl Vector_index_out_of_range
   \<and> TriangulateBearingsMidpoint TriangulateBearingsMidpointSolve
       [(Fin 0, Fin 0, Fin 0), (Fin (- 1), Fin 0, Fin 1)]
       [(Fin 0, Fin 0, Fin 1), (Fin 1, Fin 0, Fin 0)]
       [Fin (- 1)] (Fin (1 / 10)) (Fin 0)
     = Inr (False, None)
   \<and> TriangulateBearingsMidpoint TriangulateBearingsMidpointSolve
       [(Fin 0, Fin 0, Fin 0), (Fin 1, Fin 0, Fin 0)]
       [(Fin 0, Fin 0, Fin 1), (Fin 0, Fin 0, Fin 1)]
       [] (Fin (1 / 10)) (Fin 0)
     = Inr (False, None)"
proof -
  let ?cs = "[(Fin 0, Fin 0, Fin 0), (Fin (- 1), Fin 0, Fin 1)]"
  let ?bs = "[(Fin 0, Fin 0, Fin 1), (Fin 1, Fin 0, Fin 0)]"
  let ?cs' = "[(Fin 0, Fin 0, Fin 0), (Fin 1, Fin 0, Fin 0)]"
  let ?bs' = "[(Fin 0, Fin 0, Fin 1), (Fin 0, Fin 0, Fin 1)]"
  let ?S = TriangulateBearingsMidpointSolve
  note ex = ex_less_two crossing_example_solve
    DLT_example_parallax parallel_example_no_parallax
  have "TriangulateBearingsMidpoint ?S ?cs ?bs [Fin (1 / 100), Fin (1 / 100)] (Fin (1 / 10)) (Fin 0)
          = Inr (True, Some (Fin 0, Fin 0, Fin 1))"
    using threshold_list_unchecked [of ?cs ?bs ?S "[Fin (1 / 100), Fin (1 / 100)]" "Fin (1 / 10)" "Fin 0"]
      crossing_example_views
    by (simp add: ex)
  moreover
  have "TriangulateBearingsMidpoint ?S ?cs ?bs [Fin (1 / 100), Fin (- 1)] (Fin (1 / 10)) (Fin 0)
          = Inr (False, None)"
    using threshold_list_unchecked [of ?cs ?bs ?S "[Fin (1 / 100), Fin (- 1)]" "Fin (1 / 10)" "Fin 0"]
      crossing_example_views
    by (simp add: ex)
  moreover
  have "TriangulateBearingsMidpoint ?S ?cs ?bs [Fin (- 1), Fin (1 / 100)] (Fin (1 / 10)) (Fin 0)
          = Inr (False, None)"
    using threshold_list_unchecked [of ?cs ?bs ?S "[Fin (- 1), Fin (1 / 100)]" "Fin (1 / 10)" "Fin 0"]
      crossing_example_views
    by (simp add: ex)
  moreover
  have "TriangulateBearingsMidpoint ?S ?cs ?bs [Fin (1 / 100)] (Fin (1 / 10)) (Fin 0)
          = Inl Vector_index_out_of_range"
    using threshold_list_unchecked [of ?cs ?bs ?S "[Fin (1 / 100)]" "Fin (1 / 10)" "Fin 0"]
      crossing_example_views
    by (simp add: ex)
  moreover
  have "TriangulateBearingsMidpoint ?S ?cs ?bs [] (Fin (1 / 10)) (Fin 0)
          = Inl Vector_index_out_of_range"
    using threshold_list_unchecked [of ?cs ?bs ?S "[]" "Fin (1 / 10)" "Fin 0"]
      crossing_example_views
    by (simp add: ex)
  moreover
  have "TriangulateBearingsMidpoint ?S ?cs ?bs [Fin (- 1)] (Fin (1 / 10)) (Fin 0)
          = Inr (False, None)"
    using threshold_list_unchecked [of ?cs ?bs ?S "[Fin (- 1)]" "Fin (1 / 10)" "Fin 0"]
      crossing_example_views
    by (simp add: ex)
  moreover
  have "TriangulateBearingsMidpoint ?S ?cs' ?bs' [] (Fin (1 / 10)) (Fin 0)
          = Inr (False, None)"
    using threshold_list_unchecked [of ?cs' ?bs' ?S "[]" "Fin (1 / 10)" "Fin 0"]
      crossing_example_views
    by (simp add: ex)
  ultimately show ?thesis by blast
qed

subsection \<open>The linear system and the two-view batch\<close>

lemma DLTSolve_fill_length:
  "length (DLTSolve_fill bearings Rts i A) = length A"
proof (induction bearings Rts i A rule: DLTSolve_fill.induct)
  case (1 bearings Rts i A)
  show ?case
  proof (cases "i < length bearings")
    case True
    then show ?thesis
      using "1.IH" [OF True] by (subst DLTSolve_fill.simps) simp
  next
    case False
    then show ?thesis by (subst DLTSolve_fill.simps) simp
  qed
qed

lemma DLTSolve_fill_rows:
  assumes "length A = 2 * length bearings" and "k < length bearings"
  shows "DLTSolve_fill bearings Rts i A ! (2 * k) =
           (if i \<le> k then DLTSolve_row0 (bearings ! k) (Rts ! k) else A ! (2 * k))
       \<and> DLTSolve_fill bearings Rts i A ! (2 * k + 1) =
           (if i \<le> k then DLTSolve_row1 (bearings ! k) (Rts ! k) else A ! (2 * k + 1))"
  using assms
proof (induction bearings Rts i A rule: DLTSolve_fill.induct)
  case (1 bearings Rts i A)
  show ?case
  proof (cases "i < length bearings")
    case True
    define A' where "A' = A[2 * i := DLTSolve_row0 (bearings ! i) (Rts ! i),
                2 * i + 1 := DLTSolve_row1 (bearings ! i) (Rts ! i)]"
    have len': "length A' = 2 * length bearings" using "1.prems"(1) by (simp add: A'_def)
    have step: "DLTSolve_fill bearings Rts i A = DLTSolve_fill bearings Rts (Suc i) A'"
      using True by (subst DLTSolve_fill.simps) (simp add: A'_def)
    have IH: "DLTSolve_fill bearings Rts (Suc i) A' ! (2 * k) =
           (if Suc i \<le> k then DLTSolve_row0 (bearings ! k) (Rts ! k) else A' ! (2 * k))
       \<and> DLTSolve_fill bearings Rts (Suc i) A' ! (2 * k + 1) =
           (if Suc i \<le> k then DLTSolve_row1 (bearings ! k) (Rts ! k) else A' ! (2 * k + 1))"
      using "1.IH" [OF True] len' "1.prems"(2) by (simp add: A'_def)
    have in_range: "2 * i < length A" "2 * i + 1 < length A"
      using True "1.prems"(1) by simp_all
    have at_i: "A' ! (2 * i) = DLTSolve_row0 (bearings ! i) (Rts ! i)"
      "A' ! (2 * i + 1) = DLTSolve_row1 (bearings ! i) (Rts ! i)"
      using in_range by (simp_all add: A'_def nth_list_update)
    have below: "k < i \<Longrightarrow> A' ! (2 * k) = A ! (2 * k) \<and> A' ! (2 * k + 1) = A ! (2 * k + 1)"
      by (simp add: A'_def nth_list_update)
    show ?thesis
    proof (cases "Suc i \<le> k")
      case True
      then show ?thesis using IH step by simp
    next
      case False
      then consider "k = i" | "k < i" by linarith
      then show ?thesis
      proof cases
        case 1
        then show ?thesis using IH step at_i by simp
      next
        case 2
        then show ?thesis using IH step below by simp
      qed
    qed
  next
    case False
    then show ?thesis
      using "1.prems"(2) by (subst (1 2) DLTSolve_fill.simps) simp
  qed
qed

text \<open>
  Claim C4. For \<open>N\<close> pose matrices and \<open>N\<close> bearings \<^verbatim>\<open>TriangulateBearingsDLTSolve\<close> fills a
  matrix \<open>A\<close> of \<open>2N\<close> rows of four coefficients, two rows per bearing:
  row \<open>2i\<close> is \<open>b\<^sub>x \<cdot> Rt.row(2) - b\<^sub>z \<cdot> Rt.row(0)\<close> and row \<open>2i + 1\<close> is
  \<open>b\<^sub>y \<cdot> Rt.row(2) - b\<^sub>z \<cdot> Rt.row(1)\<close>. It returns the last column of the factor \<open>V\<close> of the
  singular value decomposition of \<open>A\<close>, the column that Eigen pairs with the last and
  smallest singular value. The caller \<^verbatim>\<open>TriangulateBearingsDLT\<close> divides that 4-vector by
  its fourth coefficient: once the parallax test has passed, it is the quotient that is
  reprojected into every view, and the first three coefficients of the quotient are the
  point returned when every view passes.
\<close>

theorem DLTSolve_system:
  "length bearings = length Rts \<longrightarrow>
     (\<exists>A. length A = 2 * length bearings
        \<and> (\<forall>i<length bearings. \<forall>b0 b1 b2 r0 r1 r2.
              bearings ! i = (b0, b1, b2) \<and> Rts ! i = (r0, r1, r2) \<longrightarrow>
              A ! (2 * i) = sub4 (scale4 b0 r2) (scale4 b2 r0) \<and>
              A ! (2 * i + 1) = sub4 (scale4 b1 r2) (scale4 b2 r1))
        \<and> TriangulateBearingsDLTSolve matrixV bearings Rts = Inr (column3 (matrixV A))
        \<and> ((\<exists>i<length Rts. \<exists>j<i. parallax_in_range min_angle
                 (world_bearing Rts bearings i) (world_bearing Rts bearings j)) \<longrightarrow>
             TriangulateBearingsDLT matrixV Rts bearings threshold min_angle min_depth =
               (if \<forall>i<length Rts. reprojection_ok threshold min_depth
                      (mat34_mul (Rts ! i)
                         (div4 (column3 (matrixV A)) (coeff3 (column3 (matrixV A)))))
                      (bearings ! i)
                then Inr (True, Some (head3
                         (div4 (column3 (matrixV A)) (coeff3 (column3 (matrixV A))))))
                else Inr (False, None))))"
proof
  assume len: "length bearings = length Rts"
  define A where "A = DLTSolve_fill bearings Rts 0 (replicate (2 * length bearings) uninitialized4)"
  define X0 where "X0 = column3 (matrixV A)"
  have lenA: "length A = 2 * length bearings"
    by (simp add: A_def DLTSolve_fill_length)
  have rows: "A ! (2 * i) = sub4 (scale4 b0 r2) (scale4 b2 r0) \<and>
              A ! (2 * i + 1) = sub4 (scale4 b1 r2) (scale4 b2 r1)"
    if "i < length bearings" "bearings ! i = (b0, b1, b2) \<and> Rts ! i = (r0, r1, r2)"
    for i b0 b1 b2 r0 r1 r2
    using DLTSolve_fill_rows [of "replicate (2 * length bearings) uninitialized4" bearings i Rts 0]
      that by (simp add: A_def)
  have solve: "TriangulateBearingsDLTSolve matrixV bearings Rts = Inr X0"
    using len by (simp add: TriangulateBearingsDLTSolve_def A_def X0_def Let_def)
  have le: "length Rts \<le> length bearings" using len by simp
  have caller: "TriangulateBearingsDLT matrixV Rts bearings threshold min_angle min_depth =
               (if \<forall>i<length Rts. reprojection_ok threshold min_depth
                      (mat34_mul (Rts ! i) (div4 X0 (coeff3 X0))) (bearings ! i)
                then Inr (True, Some (head3 (div4 X0 (coeff3 X0))))
                else Inr (False, None))"
    if par: "\<exists>i<length Rts. \<exists>j<i. parallax_in_range min_angle
                 (world_bearing Rts bearings i) (world_bearing Rts bearings j)"
  proof -
    have angle: "DLT_angle_outer min_angle Rts bearings 0
                   (replicate (length Rts) uninitialized3) False = Inr True"
      using par le by (subst DLT_angle_outer_eq) auto
    have check: "DLT_check threshold min_depth Rts bearings (div4 X0 (coeff3 X0)) 0 =
        Inr (\<forall>i<length Rts. reprojection_ok threshold min_depth
                    (mat34_mul (Rts ! i) (div4 X0 (coeff3 X0))) (bearings ! i))"
      by (simp add: DLT_check_eq [OF le])
    show ?thesis
      by (simp add: TriangulateBearingsDLT_def angle solve check Let_def bool.case_eq_if)
  qed
  show "\<exists>A. length A = 2 * length bearings
        \<and> (\<forall>i<length bearings. \<forall>b0 b1 b2 r0 r1 r2.
              bearings ! i = (b0, b1, b2) \<and> Rts ! i = (r0, r1, r2) \<longrightarrow>
              A ! (2 * i) = sub4 (scale4 b0 r2) (scale4 b2 r0) \<and>
              A ! (2 * i + 1) = sub4 (scale4 b1 r2) (scale4 b2 r1))
        \<and> TriangulateBearingsDLTSolve matrixV bearings Rts = Inr (column3 (matrixV A))
        \<and> ((\<exists>i<length Rts. \<exists>j<i. parallax_in_range min_angle
                 (world_bearing Rts bearings i) (world_bearing Rts bearings j)) \<longrightarrow>
             TriangulateBearingsDLT matrixV Rts bearings threshold min_angle min_depth =
               (if \<forall>i<length Rts. reprojection_ok threshold min_depth
                      (mat34_mul (Rts ! i)
                         (div4 (column3 (matrixV A)) (coeff3 (column3 (matrixV A)))))
                      (bearings ! i)
                then Inr (True, Some (head3
                         (div4 (column3 (matrixV A)) (coeff3 (column3 (matrixV A))))))
                else Inr (False, None)))"
  proof (intro exI [of _ A] conjI)
    show "length A = 2 * length bearings" by (rule lenA)
    show "\<forall>i<length bearings. \<forall>b0 b1 b2 r0 r1 r2.
              bearings ! i = (b0, b1, b2) \<and> Rts ! i = (r0, r1, r2) \<longrightarrow>
              A ! (2 * i) = sub4 (scale4 b0 r2) (scale4 b2 r0) \<and>
              A ! (2 * i + 1) = sub4 (scale4 b1 r2) (scale4 b2 r1)"
      using rows by blast
    show "TriangulateBearingsDLTSolve matrixV bearings Rts = Inr (column3 (matrixV A))"
      using solve by (simp only: X0_def)
    show "(\<exists>i<length Rts. \<exists>j<i. parallax_in_range min_angle
                 (world_bearing Rts bearings i) (world_bearing Rts bearings j)) \<longrightarrow>
             TriangulateBearingsDLT matrixV Rts bearings threshold min_angle min_depth =
               (if \<forall>i<length Rts. reprojection_ok threshold min_depth
                      (mat34_mul (Rts ! i)
                         (div4 (column3 (matrixV A)) (coeff3 (column3 (matrixV A)))))
                      (bearings ! i)
                then Inr (True, Some (head3
                         (div4 (column3 (matrixV A)) (coeff3 (column3 (matrixV A))))))
                else Inr (False, None))"
      using caller unfolding X0_def by (rule impI)
  qed
qed

lemma TwoBearingsMany_loop_result:
  assumes "length bearings1 \<le> length bearings2" and "length triangulated = length bearings1"
  shows "\<exists>res. TwoBearingsMany_loop solve bearings1 bearings2 rotation os i triangulated = Inr res
           \<and> length res = length bearings1
           \<and> (\<forall>k<length bearings1. res ! k =
                 (if i \<le> k then solve os (bearings1 ! k, mat3_mul rotation (bearings2 ! k))
                  else triangulated ! k))"
  using assms
proof (induction solve bearings1 bearings2 rotation os i triangulated
    rule: TwoBearingsMany_loop.induct)
  case (1 solve bearings1 bearings2 rotation os i triangulated)
  show ?case
  proof (cases "i < length bearings1")
    case True
    have inb: "\<not> length bearings2 \<le> i" using True "1.prems"(1) by simp
    define t' where "t' = triangulated[i := solve os (bearings1 ! i, mat3_mul rotation (bearings2 ! i))]"
    have len': "length t' = length bearings1" using "1.prems"(2) by (simp add: t'_def)
    have step: "TwoBearingsMany_loop solve bearings1 bearings2 rotation os i triangulated =
                TwoBearingsMany_loop solve bearings1 bearings2 rotation os (Suc i) t'"
      using True inb by (subst TwoBearingsMany_loop.simps) (simp add: t'_def Let_def)
    obtain res where res: "TwoBearingsMany_loop solve bearings1 bearings2 rotation os (Suc i) t' = Inr res"
      "length res = length bearings1"
      "\<forall>k<length bearings1. res ! k =
                 (if Suc i \<le> k then solve os (bearings1 ! k, mat3_mul rotation (bearings2 ! k))
                  else t' ! k)"
      using "1.IH" [OF True inb refl "1.prems"(1)] len' by (auto simp: t'_def)
    have "res ! k = (if i \<le> k then solve os (bearings1 ! k, mat3_mul rotation (bearings2 ! k))
                  else triangulated ! k)" if "k < length bearings1" for k
    proof -
      consider "Suc i \<le> k" | "k = i" | "k < i" by linarith
      then show ?thesis
      proof cases
        case 1
        then show ?thesis using res(3) that by simp
      next
        case 2
        then show ?thesis using res(3) that "1.prems"(2) by (simp add: t'_def)
      next
        case 3
        then show ?thesis using res(3) that by (simp add: t'_def)
      qed
    qed
    then show ?thesis using step res(1,2) by simp
  next
    case False
    then show ?thesis
      using "1.prems"(2) by (subst TwoBearingsMany_loop.simps) simp
  qed
qed

text \<open>
  Claim C7. For two bearing batches of the same size \<^verbatim>\<open>TriangulateTwoBearingsMidpointMany\<close>
  returns one pair per correspondence, and the \<open>i\<close>-th pair is the result of the two-ray
  solver on the centers \<open>{origin, translation}\<close> and the bearings
  \<open>{bearings1.row(i), rotation \<cdot> bearings2.row(i)}\<close>; nothing else is computed.
\<close>

theorem TwoBearingsMany_maps_solve:
  "length bearings2 = length bearings1 \<longrightarrow>
     (\<exists>res. TriangulateTwoBearingsMidpointMany solve bearings1 bearings2 rotation translation
               = Inr res
           \<and> length res = length bearings1
           \<and> (\<forall>i<length bearings1. res ! i =
                 solve ((Fin 0, Fin 0, Fin 0), translation)
                       (bearings1 ! i, mat3_mul rotation (bearings2 ! i))))"
proof
  assume len: "length bearings2 = length bearings1"
  then have le: "length bearings1 \<le> length bearings2" by simp
  have lt: "length (replicate (length bearings1) (False, None :: Vec3d option)) = length bearings1"
    by simp
  show "\<exists>res. TriangulateTwoBearingsMidpointMany solve bearings1 bearings2 rotation translation
               = Inr res
           \<and> length res = length bearings1
           \<and> (\<forall>i<length bearings1. res ! i =
                 solve ((Fin 0, Fin 0, Fin 0), translation)
                       (bearings1 ! i, mat3_mul rotation (bearings2 ! i)))"
    using TwoBearingsMany_loop_result [OF le lt, of solve rotation "((0, 0, 0), translation)" 0]
    by (simp add: TriangulateTwoBearingsMidpointMany_def Let_def zero_double_def)
qed


lemma round64_inv_sqrt2:
  "round64 (6369051672525773 / 9007199254740992) = Fin (6369051672525773 / 9007199254740992)"
  "round64 (- (6369051672525773 / 9007199254740992)) = Fin (- (6369051672525773 / 9007199254740992))"
proof -
  have p: "pow2 (- 53) = 1 / 2 ^ 53" using pow2_neg [of 53] by simp
  have "(6369051672525773 / 9007199254740992 :: real) = of_int 6369051672525773 * pow2 (- 53)"
    using p by simp
  then show "round64 (6369051672525773 / 9007199254740992) =
      Fin (6369051672525773 / 9007199254740992)"
    by (rule round64_exact) simp_all
  have "(- (6369051672525773 / 9007199254740992) :: real) =
      of_int (- 6369051672525773) * pow2 (- 53)"
    using p by simp
  then show "round64 (- (6369051672525773 / 9007199254740992)) =
      Fin (- (6369051672525773 / 9007199254740992))"
    by (rule round64_exact) simp_all
qed


text \<open>
  The two perpendicular rays above. The matrix \<open>V\<close> is the factor of the decomposition
  of their system, with the binary64 value of \<open>1 / \<surd>2\<close> in its first and last column:
  the last column is a null vector of \<open>A\<close>, and dividing it by its fourth coefficient
  gives the point \<open>(0, 0, 1)\<close>.
\<close>

theorem DLTSolve_system_witness:
  "\<exists>A. length A = 4
      \<and> A ! 0 = (Fin (- 1), Fin 0, Fin 0, Fin 0) \<and> A ! 1 = (Fin 0, Fin (- 1), Fin 0, Fin 0)
      \<and> A ! 2 = (Fin 0, Fin 0, Fin 1, Fin (- 1)) \<and> A ! 3 = (Fin 0, Fin 0, Fin 0, Fin 0)
      \<and> TriangulateBearingsDLTSolve
          (\<lambda>A. ((Fin 0, Fin 1, Fin 0, Fin 0), (Fin 0, Fin 0, Fin 1, Fin 0),
                 (Fin (6369051672525773 / 9007199254740992), Fin 0, Fin 0, Fin (6369051672525773 / 9007199254740992)),
                 (Fin (- (6369051672525773 / 9007199254740992)), Fin 0, Fin 0, Fin (6369051672525773 / 9007199254740992))))
          [(Fin 0, Fin 0, Fin 1), (Fin 1, Fin 0, Fin 0)]
          [((Fin 1, Fin 0, Fin 0, Fin 0), (Fin 0, Fin 1, Fin 0, Fin 0), (Fin 0, Fin 0, Fin 1, Fin 0)),
           ((Fin 1, Fin 0, Fin 0, Fin 1), (Fin 0, Fin 1, Fin 0, Fin 0), (Fin 0, Fin 0, Fin 1, Fin (- 1)))]
          = Inr (Fin 0, Fin 0, Fin (6369051672525773 / 9007199254740992), Fin (6369051672525773 / 9007199254740992))
      \<and> dot4 (A ! 0) (Fin 0, Fin 0, Fin (6369051672525773 / 9007199254740992), Fin (6369051672525773 / 9007199254740992)) = Fin 0
      \<and> dot4 (A ! 1) (Fin 0, Fin 0, Fin (6369051672525773 / 9007199254740992), Fin (6369051672525773 / 9007199254740992)) = Fin 0
      \<and> dot4 (A ! 2) (Fin 0, Fin 0, Fin (6369051672525773 / 9007199254740992), Fin (6369051672525773 / 9007199254740992)) = Fin 0
      \<and> dot4 (A ! 3) (Fin 0, Fin 0, Fin (6369051672525773 / 9007199254740992), Fin (6369051672525773 / 9007199254740992)) = Fin 0
      \<and> TriangulateBearingsDLT
          (\<lambda>A. ((Fin 0, Fin 1, Fin 0, Fin 0), (Fin 0, Fin 0, Fin 1, Fin 0),
                 (Fin (6369051672525773 / 9007199254740992), Fin 0, Fin 0, Fin (6369051672525773 / 9007199254740992)),
                 (Fin (- (6369051672525773 / 9007199254740992)), Fin 0, Fin 0, Fin (6369051672525773 / 9007199254740992))))
          [((Fin 1, Fin 0, Fin 0, Fin 0), (Fin 0, Fin 1, Fin 0, Fin 0), (Fin 0, Fin 0, Fin 1, Fin 0)),
           ((Fin 1, Fin 0, Fin 0, Fin 1), (Fin 0, Fin 1, Fin 0, Fin 0), (Fin 0, Fin 0, Fin 1, Fin (- 1)))]
          [(Fin 0, Fin 0, Fin 1), (Fin 1, Fin 0, Fin 0)]
          (Fin (1 / 100)) (Fin (1 / 10)) (Fin 0)
          = Inr (True, Some (Fin 0, Fin 0, Fin 1))"
proof -
  let ?V = "(\<lambda>A. ((Fin 0, Fin 1, Fin 0, Fin 0), (Fin 0, Fin 0, Fin 1, Fin 0),
                 (Fin (6369051672525773 / 9007199254740992), Fin 0, Fin 0, Fin (6369051672525773 / 9007199254740992)),
                 (Fin (- (6369051672525773 / 9007199254740992)), Fin 0, Fin 0, Fin (6369051672525773 / 9007199254740992)))) :: MatX4d \<Rightarrow> Mat4d"
  let ?Rts = "[((Fin 1, Fin 0, Fin 0, Fin 0), (Fin 0, Fin 1, Fin 0, Fin 0), (Fin 0, Fin 0, Fin 1, Fin 0)),
           ((Fin 1, Fin 0, Fin 0, Fin 1), (Fin 0, Fin 1, Fin 0, Fin 0), (Fin 0, Fin 0, Fin 1, Fin (- 1)))]"
  let ?bs = "[(Fin 0, Fin 0, Fin 1), (Fin 1, Fin 0, Fin 0)]"
  let ?X0 = "(Fin 0, Fin 0, Fin (6369051672525773 / 9007199254740992), Fin (6369051672525773 / 9007199254740992))"
  have len: "length ?bs = length ?Rts" by simp
  note T = mp [OF DLTSolve_system [of ?bs ?Rts ?V "Fin (1 / 10)" "Fin (1 / 100)" "Fin 0"] len]
  from T obtain A where all: "length A = 2 * length ?bs
        \<and> (\<forall>i<length ?bs. \<forall>b0 b1 b2 r0 r1 r2.
              ?bs ! i = (b0, b1, b2) \<and> ?Rts ! i = (r0, r1, r2) \<longrightarrow>
              A ! (2 * i) = sub4 (scale4 b0 r2) (scale4 b2 r0) \<and>
              A ! (2 * i + 1) = sub4 (scale4 b1 r2) (scale4 b2 r1))
        \<and> TriangulateBearingsDLTSolve ?V ?bs ?Rts = Inr (column3 (?V A))
        \<and> ((\<exists>i<length ?Rts. \<exists>j<i. parallax_in_range (Fin (1 / 10))
                 (world_bearing ?Rts ?bs i) (world_bearing ?Rts ?bs j)) \<longrightarrow>
             TriangulateBearingsDLT ?V ?Rts ?bs (Fin (1 / 100)) (Fin (1 / 10)) (Fin 0) =
               (if \<forall>i<length ?Rts. reprojection_ok (Fin (1 / 100)) (Fin 0)
                      (mat34_mul (?Rts ! i)
                         (div4 (column3 (?V A)) (coeff3 (column3 (?V A)))))
                      (?bs ! i)
                then Inr (True, Some (head3
                         (div4 (column3 (?V A)) (coeff3 (column3 (?V A))))))
                else Inr (False, None)))" ..
  note A = all [THEN conjunct1]
  note rows = all [THEN conjunct2, THEN conjunct1]
  note solve = all [THEN conjunct2, THEN conjunct2, THEN conjunct1]
  note caller = all [THEN conjunct2, THEN conjunct2, THEN conjunct2]
  have rows0: "A ! (2 * 0) = sub4 (scale4 (Fin 0) (Fin 0, Fin 0, Fin 1, Fin 0))
                               (scale4 (Fin 1) (Fin 1, Fin 0, Fin 0, Fin 0))
          \<and> A ! (2 * 0 + 1) = sub4 (scale4 (Fin 0) (Fin 0, Fin 0, Fin 1, Fin 0))
                               (scale4 (Fin 1) (Fin 0, Fin 1, Fin 0, Fin 0))"
    using rows by (elim allE [of _ 0]) simp
  have rows1: "A ! (2 * 1) = sub4 (scale4 (Fin 1) (Fin 0, Fin 0, Fin 1, Fin (- 1)))
                               (scale4 (Fin 0) (Fin 1, Fin 0, Fin 0, Fin 1))
          \<and> A ! (2 * 1 + 1) = sub4 (scale4 (Fin 0) (Fin 0, Fin 0, Fin 1, Fin (- 1)))
                               (scale4 (Fin 0) (Fin 0, Fin 1, Fin 0, Fin 0))"
    using rows by (elim allE [of _ 1]) simp
  have a0: "A ! 0 = (Fin (- 1), Fin 0, Fin 0, Fin 0)"
    and a1: "A ! 1 = (Fin 0, Fin (- 1), Fin 0, Fin 0)"
    using rows0 by (simp_all add: double_arith)
  have a2: "A ! 2 = (Fin 0, Fin 0, Fin 1, Fin (- 1))"
    and a3: "A ! 3 = (Fin 0, Fin 0, Fin 0, Fin 0)"
    using rows1 by (simp_all add: double_arith)
  have l: "length A = 4" using A by simp
  have s: "TriangulateBearingsDLTSolve ?V ?bs ?Rts = Inr ?X0"
    using solve by simp
  have n0: "dot4 (A ! 0) ?X0 = Fin 0" and n1: "dot4 (A ! 1) ?X0 = Fin 0"
    and n2: "dot4 (A ! 2) ?X0 = Fin 0" and n3: "dot4 (A ! 3) ?X0 = Fin 0"
    unfolding a0 a1 a2 a3 by (simp_all add: double_arith round64_inv_sqrt2)
  have wb: "world_bearing ?Rts ?bs (Suc 0) = (Fin 1, Fin 0, Fin 0)"
    "world_bearing ?Rts ?bs 0 = (Fin 0, Fin 0, Fin 1)"
    by (simp_all add: world_bearing_def double_arith)
  have par: "\<exists>i<length ?Rts. \<exists>j<i. parallax_in_range (Fin (1 / 10))
           (world_bearing ?Rts ?bs i) (world_bearing ?Rts ?bs j)"
    using DLT_example_parallax wb by (intro exI [of _ "Suc 0"] exI [of _ 0]) simp
  have X: "div4 (column3 (?V A)) (coeff3 (column3 (?V A))) = (Fin 0, Fin 0, Fin 1, Fin 1)"
    by (simp add: double_arith)
  have views: "\<forall>i<length ?Rts. reprojection_ok (Fin (1 / 100)) (Fin 0)
                  (mat34_mul (?Rts ! i) (Fin 0, Fin 0, Fin 1, Fin 1)) (?bs ! i)"
    by (simp add: all_less_two reprojection_ok_def AngleBetweenVectors_def
        AngleBetweenVectors_c_def double_arith)
  have "TriangulateBearingsDLT ?V ?Rts ?bs (Fin (1 / 100)) (Fin (1 / 10)) (Fin 0) =
          Inr (True, Some (head3 (Fin 0, Fin 0, Fin 1, Fin 1)))"
    using caller par views unfolding X by presburger
  then have d: "TriangulateBearingsDLT ?V ?Rts ?bs (Fin (1 / 100)) (Fin (1 / 10)) (Fin 0) =
          Inr (True, Some (Fin 0, Fin 0, Fin 1))"
    by simp
  show ?thesis
    using l a0 a1 a2 a3 s n0 n1 n2 n3 d
    by (intro exI [of _ A] conjI)
qed

text \<open>One correspondence: the rays from the origin along \<open>z\<close> and from \<open>(-1, 0, 1)\<close>
  along \<open>x\<close> meet at \<open>(0, 0, 1)\<close>; the two-ray solver is the least-squares point of the
  two rays.\<close>

theorem TwoBearingsMany_maps_solve_witness:
  "TriangulateTwoBearingsMidpointMany
       (\<lambda>(o1, o2) (b1, b2). (True, Some (TriangulateBearingsMidpointSolve [o1, o2] [b1, b2])))
       [(Fin 0, Fin 0, Fin 1)] [(Fin 1, Fin 0, Fin 0)]
       ((Fin 1, Fin 0, Fin 0), (Fin 0, Fin 1, Fin 0), (Fin 0, Fin 0, Fin 1))
       (Fin (- 1), Fin 0, Fin 1)
     = Inr [(True, Some (Fin 0, Fin 0, Fin 1))]"
proof -
  let ?solve = "\<lambda>(o1, o2) (b1, b2).
      (True, Some (TriangulateBearingsMidpointSolve [o1, o2] [b1, b2]))"
  let ?b1 = "[(Fin 0, Fin 0, Fin 1)]"
  let ?b2 = "[(Fin 1, Fin 0, Fin 0)]"
  let ?R = "((Fin 1, Fin 0, Fin 0), (Fin 0, Fin 1, Fin 0), (Fin 0, Fin 0, Fin 1))"
  let ?t = "(Fin (- 1), Fin 0, Fin 1)"
  have len: "length ?b2 = length ?b1" by simp
  obtain res where res: "TriangulateTwoBearingsMidpointMany ?solve ?b1 ?b2 ?R ?t = Inr res"
    and l: "length res = length ?b1"
    and at: "\<forall>i<length ?b1. res ! i =
                 ?solve ((Fin 0, Fin 0, Fin 0), ?t) (?b1 ! i, mat3_mul ?R (?b2 ! i))"
    using TwoBearingsMany_maps_solve [of ?b2 ?b1 ?solve ?R ?t] len by blast
  have "res ! 0 = (True, Some (Fin 0, Fin 0, Fin 1))"
    using at by (simp add: TriangulateBearingsMidpointSolve_def double_arith)
  then have "res = [(True, Some (Fin 0, Fin 0, Fin 1))]"
    using l by (cases res) auto
  then show ?thesis using res by simp
qed

subsection \<open>The binding layer\<close>

lemma shapes_differ_raster:
  assumes "2 \<le> length (shape a)" and "2 \<le> length (shape b)"
  shows "shapes_differ a b = Inr (\<not> raster_shapes_agree a b)"
  using assms by (auto simp: shapes_differ_def shape_at_def raster_shapes_agree_def)

text \<open>
  Claim C8. For rasters (arrays with at least two axes) \<^verbatim>\<open>DepthmapEstimatorWrapper::AddView\<close>
  throws \<^verbatim>\<open>invalid_argument\<close> when image and mask differ in either extent, and
  \<^verbatim>\<open>DepthmapPrunerWrapper::AddView\<close> when depth differs from plane, color or label in
  either extent; the exception is the whole result, so the native state is untouched.
  When the shapes agree the result is the state after the native \<^verbatim>\<open>AddView\<close>, called with
  width \<^verbatim>\<open>shape(1)\<close> and height \<^verbatim>\<open>shape(0)\<close>.
\<close>

theorem AddView_validates_shapes:
  "(2 \<le> length (shape image_raster) \<and> 2 \<le> length (shape mask_raster) \<longrightarrow>
      DepthmapEstimatorWrapper_AddView AddView K R t image_raster mask_raster de =
        (if shape image_raster ! 0 \<noteq> shape mask_raster ! 0 \<or> shape image_raster ! 1 \<noteq> shape mask_raster ! 1
         then Inl (invalid_argument ''image and mask must have matching shapes.'')
         else Inr (AddView de (data K) (data R) (data t) (data image_raster) (data mask_raster)
                     (shape image_raster ! 1) (shape image_raster ! 0))))
   \<and> (2 \<le> length (shape depth) \<and> 2 \<le> length (shape plane) \<and>
      2 \<le> length (shape color) \<and> 2 \<le> length (shape label) \<longrightarrow>
      DepthmapPrunerWrapper_AddView AddView' K' R' t' depth plane color label dp =
        (if shape depth ! 0 \<noteq> shape plane ! 0 \<or> shape depth ! 1 \<noteq> shape plane ! 1
         then Inl (invalid_argument ''depth and plane must have matching shapes.'')
         else if shape depth ! 0 \<noteq> shape color ! 0 \<or> shape depth ! 1 \<noteq> shape color ! 1
         then Inl (invalid_argument ''depth and color must have matching shapes.'')
         else if shape depth ! 0 \<noteq> shape label ! 0 \<or> shape depth ! 1 \<noteq> shape label ! 1
         then Inl (invalid_argument ''depth and label must have matching shapes.'')
         else Inr (AddView' dp (data K') (data R') (data t') (data depth) (data plane)
                     (data color) (data label) (shape depth ! 1) (shape depth ! 0))))"
proof (intro conjI impI)
  assume h: "2 \<le> length (shape image_raster) \<and> 2 \<le> length (shape mask_raster)"
  then have d: "shapes_differ image_raster mask_raster = Inr (\<not> raster_shapes_agree image_raster mask_raster)"
    by (simp add: shapes_differ_raster)
  have s: "shape_at image_raster 1 = Inr (shape image_raster ! 1)" "shape_at image_raster 0 = Inr (shape image_raster ! 0)"
    using h by (auto simp: shape_at_def)
  show "DepthmapEstimatorWrapper_AddView AddView K R t image_raster mask_raster de =
        (if shape image_raster ! 0 \<noteq> shape mask_raster ! 0 \<or> shape image_raster ! 1 \<noteq> shape mask_raster ! 1
         then Inl (invalid_argument ''image and mask must have matching shapes.'')
         else Inr (AddView de (data K) (data R) (data t) (data image_raster) (data mask_raster)
                     (shape image_raster ! 1) (shape image_raster ! 0)))"
    using s by (simp add: DepthmapEstimatorWrapper_AddView_def d raster_shapes_agree_def)
next
  assume h: "2 \<le> length (shape depth) \<and> 2 \<le> length (shape plane) \<and>
      2 \<le> length (shape color) \<and> 2 \<le> length (shape label)"
  then have d: "shapes_differ depth plane = Inr (\<not> raster_shapes_agree depth plane)"
    "shapes_differ depth color = Inr (\<not> raster_shapes_agree depth color)"
    "shapes_differ depth label = Inr (\<not> raster_shapes_agree depth label)"
    by (simp_all add: shapes_differ_raster)
  have s: "shape_at depth 1 = Inr (shape depth ! 1)" "shape_at depth 0 = Inr (shape depth ! 0)"
    using h by (auto simp: shape_at_def)
  show "DepthmapPrunerWrapper_AddView AddView' K' R' t' depth plane color label dp =
        (if shape depth ! 0 \<noteq> shape plane ! 0 \<or> shape depth ! 1 \<noteq> shape plane ! 1
         then Inl (invalid_argument ''depth and plane must have matching shapes.'')
         else if shape depth ! 0 \<noteq> shape color ! 0 \<or> shape depth ! 1 \<noteq> shape color ! 1
         then Inl (invalid_argument ''depth and color must have matching shapes.'')
         else if shape depth ! 0 \<noteq> shape label ! 0 \<or> shape depth ! 1 \<noteq> shape label ! 1
         then Inl (invalid_argument ''depth and label must have matching shapes.'')
         else Inr (AddView' dp (data K') (data R') (data t') (data depth) (data plane)
                     (data color) (data label) (shape depth ! 1) (shape depth ! 0)))"
    using s by (simp add: DepthmapPrunerWrapper_AddView_def d raster_shapes_agree_def)
qed


text \<open>A 1x2 image with a 2x1 and with a 1x2 mask; a 1x2 depth map with 1x2x3 planes and
  colours and a 1x3 or a 1x2 label raster. The native state is the list of the
  (width, height) pairs added.\<close>

theorem AddView_validates_shapes_witness:
  "DepthmapEstimatorWrapper_AddView (\<lambda>de K R t i m width height. (width, height) # de)
       \<lparr>shape = [3, 3], data = replicate 9 (Fin 0)\<rparr> \<lparr>shape = [3, 3], data = replicate 9 (Fin 0)\<rparr>
       \<lparr>shape = [3], data = replicate 3 (Fin 0)\<rparr>
       \<lparr>shape = [1, 2], data = [5, 6 :: nat]\<rparr> \<lparr>shape = [2, 1], data = [1, 1 :: nat]\<rparr> []
     = Inl (invalid_argument ''image and mask must have matching shapes.'')
   \<and> DepthmapEstimatorWrapper_AddView (\<lambda>de K R t i m width height. (width, height) # de)
       \<lparr>shape = [3, 3], data = replicate 9 (Fin 0)\<rparr> \<lparr>shape = [3, 3], data = replicate 9 (Fin 0)\<rparr>
       \<lparr>shape = [3], data = replicate 3 (Fin 0)\<rparr>
       \<lparr>shape = [1, 2], data = [5, 6 :: nat]\<rparr> \<lparr>shape = [1, 2], data = [1, 1 :: nat]\<rparr> []
     = Inr [(2, 1)]
   \<and> DepthmapPrunerWrapper_AddView (\<lambda>dp K R t d p c l width height. (width, height) # dp)
       \<lparr>shape = [3, 3], data = replicate 9 (Fin 0)\<rparr> \<lparr>shape = [3, 3], data = replicate 9 (Fin 0)\<rparr>
       \<lparr>shape = [3], data = replicate 3 (Fin 0)\<rparr>
       \<lparr>shape = [1, 2], data = [Fin 1, Fin 2]\<rparr>
       \<lparr>shape = [1, 2, 3], data = replicate 6 (Fin 0)\<rparr>
       \<lparr>shape = [1, 2, 3], data = replicate 6 (0 :: nat)\<rparr>
       \<lparr>shape = [1, 3], data = [0, 0, 0 :: nat]\<rparr> []
     = Inl (invalid_argument ''depth and label must have matching shapes.'')
   \<and> DepthmapPrunerWrapper_AddView (\<lambda>dp K R t d p c l width height. (width, height) # dp)
       \<lparr>shape = [3, 3], data = replicate 9 (Fin 0)\<rparr> \<lparr>shape = [3, 3], data = replicate 9 (Fin 0)\<rparr>
       \<lparr>shape = [3], data = replicate 3 (Fin 0)\<rparr>
       \<lparr>shape = [1, 2], data = [Fin 1, Fin 2]\<rparr>
       \<lparr>shape = [1, 2, 3], data = replicate 6 (Fin 0)\<rparr>
       \<lparr>shape = [1, 2, 3], data = replicate 6 (0 :: nat)\<rparr>
       \<lparr>shape = [1, 2], data = [0, 0 :: nat]\<rparr> []
     = Inr [(2, 1)]"
proof -
  let ?E = "\<lambda>(de :: (nat \<times> nat) list) (K :: double list) (R :: double list) (t :: double list)
              (i :: nat list) (m :: nat list) width height. (width, height) # de"
  let ?P = "\<lambda>(dp :: (nat \<times> nat) list) (K :: double list) (R :: double list) (t :: double list)
              (d :: double list) (p :: double list) (c :: nat list) (l :: nat list)
              width height. (width, height) # dp"
  let ?K = "\<lparr>shape = [3, 3], data = replicate 9 (Fin 0)\<rparr>"
  let ?t = "\<lparr>shape = [3], data = replicate 3 (Fin 0)\<rparr>"
  let ?image = "\<lparr>shape = [1, 2], data = [5, 6 :: nat]\<rparr>"
  let ?mask21 = "\<lparr>shape = [2, 1], data = [1, 1 :: nat]\<rparr>"
  let ?mask12 = "\<lparr>shape = [1, 2], data = [1, 1 :: nat]\<rparr>"
  let ?depth = "\<lparr>shape = [1, 2], data = [Fin 1, Fin 2]\<rparr>"
  let ?plane = "\<lparr>shape = [1, 2, 3], data = replicate 6 (Fin 0)\<rparr>"
  let ?color = "\<lparr>shape = [1, 2, 3], data = replicate 6 (0 :: nat)\<rparr>"
  let ?label13 = "\<lparr>shape = [1, 3], data = [0, 0, 0 :: nat]\<rparr>"
  let ?label12 = "\<lparr>shape = [1, 2], data = [0, 0 :: nat]\<rparr>"
  have e1: "2 \<le> length (shape ?image) \<and> 2 \<le> length (shape ?mask21)" by simp
  have e2: "2 \<le> length (shape ?image) \<and> 2 \<le> length (shape ?mask12)" by simp
  have p1: "2 \<le> length (shape ?depth) \<and> 2 \<le> length (shape ?plane) \<and>
      2 \<le> length (shape ?color) \<and> 2 \<le> length (shape ?label13)" by simp
  have p2: "2 \<le> length (shape ?depth) \<and> 2 \<le> length (shape ?plane) \<and>
      2 \<le> length (shape ?color) \<and> 2 \<le> length (shape ?label12)" by simp
  have r1: "DepthmapEstimatorWrapper_AddView ?E ?K ?K ?t ?image ?mask21 []
              = Inl (invalid_argument ''image and mask must have matching shapes.'')"
    using AddView_validates_shapes [of ?image ?mask21 ?E ?K ?K ?t "[]"
        ?depth ?plane ?color ?label13 ?P ?K ?K ?t "[]"] e1 by simp
  have r2: "DepthmapEstimatorWrapper_AddView ?E ?K ?K ?t ?image ?mask12 [] = Inr [(2, 1)]"
    using AddView_validates_shapes [of ?image ?mask12 ?E ?K ?K ?t "[]"
        ?depth ?plane ?color ?label13 ?P ?K ?K ?t "[]"] e2 by simp
  have r3: "DepthmapPrunerWrapper_AddView ?P ?K ?K ?t ?depth ?plane ?color ?label13 []
              = Inl (invalid_argument ''depth and label must have matching shapes.'')"
    using AddView_validates_shapes [of ?image ?mask21 ?E ?K ?K ?t "[]"
        ?depth ?plane ?color ?label13 ?P ?K ?K ?t "[]"] p1 by simp
  have r4: "DepthmapPrunerWrapper_AddView ?P ?K ?K ?t ?depth ?plane ?color ?label12 []
              = Inr [(2, 1)]"
    using AddView_validates_shapes [of ?image ?mask21 ?E ?K ?K ?t "[]"
        ?depth ?plane ?color ?label12 ?P ?K ?K ?t "[]"] p2 by simp
  show ?thesis using r1 r2 r3 r4 by simp
qed

end
